theory Spec2Isabelle
  imports Complex_Main "HOL-Library.Log_Nat"
begin

section \<open>The network generators of \<open>src/js/generators.js\<close>\<close>

text \<open>
  The theory embeds the object \<open>Generators\<close> (the four topology generators, the two
  internal-structure generators and the dispatcher \<open>generateTopology\<close>) together with the
  two getters of \<open>DataManager\<close> it calls.

  Conventions of the embedding.
  \<^item> Integer quantities of the source (indices, node ids, layer numbers, loop counters) are
    \<open>nat\<close>; the counts a caller passes (\<open>targetCount\<close>, \<open>cocoonCount\<close>, \<open>nodeCount\<close>)
    are \<open>int\<close>, so that zero and negative counts are inputs of the model.
  \<^item> The layer counts of the funnel and of the hourglass are computed as the source
    computes them, in IEEE double arithmetic: every division, square, product, sum and
    difference is rounded to the nearest double (\<open>to_double\<close>), and the value is a \<open>jsnum\<close>,
    which has \<open>NaN\<close> and the two infinities, since the source can divide zero by zero there.
    All other numbers (weights, thresholds, draws, the products under a \<open>Math.floor\<close>
    elsewhere) are exact reals.
  \<^item> The coordinates \<open>x\<close>, \<open>y\<close>, \<open>z\<close> of a position are products of \<open>Math.cos\<close>,
    \<open>Math.sin\<close> and \<open>Math.sqrt\<close> on doubles; no index, count, type or branch of the topology
    generators reads them, and they are left out of the position records. The one place
    that reads them, the distance test of \<open>generateSphereSurface\<close>, takes the distance
    as a parameter.
  \<^item> \<open>Math.random()\<close> is the next element of a sequence \<open>rnd :: nat \<Rightarrow> real\<close>; the state
    counts the draws made so far, in the order the source makes them.
  \<^item> A read of a missing array element or property is \<open>None\<close> (\<open>undefined\<close>); a property
    read on \<open>undefined\<close> is the failure \<open>TypeError\<close>; a loop that never ends is the failure
    \<open>Diverges\<close>.
\<close>

subsection \<open>The numbers of the layer counts\<close>

text \<open>
  Rounding to double precision. For \<open>x \<noteq> 0\<close>, \<open>binary_exponent x\<close> is the integer \<open>e\<close> with
  \<open>2^e \<le> |x| < 2^(e+1)\<close>, found from the number of binary digits of the integer part of
  \<open>|x|\<close> or of \<open>1 / |x|\<close>.
\<close>

definition binary_exponent :: "real \<Rightarrow> int" where
  "binary_exponent x =
     (if 1 \<le> \<bar>x\<bar> then bitlen \<lfloor>\<bar>x\<bar>\<rfloor> - 1 else - bitlen (\<lceil>1 / \<bar>x\<bar>\<rceil> - 1))"

text \<open>The nearest integer, a tie going to the even one.\<close>

definition round_half_even :: "real \<Rightarrow> int" where
  "round_half_even q =
     (let f = \<lfloor>q\<rfloor>; d = q - of_int f
      in if d < 1 / 2 then f else if 1 / 2 < d then f + 1 else if even f then f else f + 1)"

text \<open>
  The double nearest to \<open>x\<close> (binary64: 53 significant bits, least exponent \<open>-1022\<close>, below
  which the spacing stays \<open>2^-1074\<close>; round to nearest, ties to even). The exponent is not
  bounded above: the results of lines 50, 51 and 317 to 322 are no larger in magnitude than
  their integer inputs plus one, so they overflow only if an input is no double itself.
\<close>

definition to_double :: "real \<Rightarrow> real" where
  "to_double x =
     (if x = 0 then 0
      else let e = max (binary_exponent x) (- 1022); ulp = 2 powi (e - 52)
           in of_int (round_half_even (x / ulp)) * ulp)"

text \<open>A number of the source where it can leave the finite ones.\<close>

datatype jsnum = Fin real | PInf | NInf | NaN

text \<open>\<open>a / b\<close> on finite operands; at both call sites a zero divisor is \<open>+0\<close>.\<close>

definition js_div :: "real \<Rightarrow> real \<Rightarrow> jsnum" where
  "js_div a b =
     (if b \<noteq> 0 then Fin (to_double (a / b))
      else if a = 0 then NaN
      else if 0 < a then PInf else NInf)"

text \<open>\<open>x ** 2\<close>, the rounded square, as \<open>x * x\<close> is.\<close>

fun js_sq :: "jsnum \<Rightarrow> jsnum" where
  "js_sq (Fin r) = Fin (to_double (r ^ 2))"
| "js_sq PInf = PInf"
| "js_sq NInf = PInf"
| "js_sq NaN = NaN"

text \<open>\<open>a * x\<close> and \<open>a + x\<close> with a finite left operand.\<close>

fun js_times :: "real \<Rightarrow> jsnum \<Rightarrow> jsnum" where
  "js_times a (Fin r) = Fin (to_double (a * r))"
| "js_times a PInf = (if a = 0 then NaN else if 0 < a then PInf else NInf)"
| "js_times a NInf = (if a = 0 then NaN else if 0 < a then NInf else PInf)"
| "js_times a NaN = NaN"

fun js_plus :: "real \<Rightarrow> jsnum \<Rightarrow> jsnum" where
  "js_plus a (Fin r) = Fin (to_double (a + r))"
| "js_plus a PInf = PInf"
| "js_plus a NInf = NInf"
| "js_plus a NaN = NaN"

text \<open>\<open>Math.floor\<close>, \<open>Math.round\<close> (halves go up) and \<open>Math.max(a, x)\<close>, which is \<open>NaN\<close>
  as soon as one argument is. Their results are exact: the integers next to a double and
  the larger of two doubles are doubles.\<close>

fun js_floor :: "jsnum \<Rightarrow> jsnum" where
  "js_floor (Fin r) = Fin (of_int \<lfloor>r\<rfloor>)"
| "js_floor PInf = PInf"
| "js_floor NInf = NInf"
| "js_floor NaN = NaN"

fun js_round :: "jsnum \<Rightarrow> jsnum" where
  "js_round (Fin r) = Fin (of_int \<lfloor>r + 1 / 2\<rfloor>)"
| "js_round PInf = PInf"
| "js_round NInf = NInf"
| "js_round NaN = NaN"

fun js_max :: "real \<Rightarrow> jsnum \<Rightarrow> jsnum" where
  "js_max a (Fin r) = Fin (max a r)"
| "js_max a PInf = PInf"
| "js_max a NInf = Fin a"
| "js_max a NaN = NaN"

text \<open>
  The number of rounds of \<open>for (let i = 0; i < count; i++)\<close>: every comparison with
  \<open>NaN\<close> is false, so the body never runs; with \<open>Infinity\<close> the loop never ends.
\<close>

fun trip_count :: "jsnum \<Rightarrow> nat option" where
  "trip_count (Fin r) = Some (nat \<lceil>r\<rceil>)"
| "trip_count PInf = None"
| "trip_count NInf = Some 0"
| "trip_count NaN = Some 0"

subsection \<open>Data model\<close>

text \<open>\<open>{x, y, z, layer}\<close> of the topology generators and \<open>{x, y, z, type}\<close> of the
  structure generators, without the coordinates.\<close>

record position =
  layer :: nat

record node =
  type :: string

text \<open>\<open>{from, to, weight}\<close>; \<open>from\<close> is read out of an array and can be \<open>undefined\<close>.\<close>

record connection =
  "from" :: "nat option"
  to :: nat
  weight :: real

text \<open>The object a structure generator returns: \<open>{positions, connections}\<close>.\<close>

record 'p graph =
  positions :: "'p list"
  connections :: "connection list"

text \<open>\<open>{positions, connections, types}\<close>; an entry of \<open>types\<close> is \<open>undefined\<close> when the
  type table has no such element.\<close>

record 'p typed_graph = "'p graph" +
  types :: "string option list"

text \<open>The object a topology generator returns; the empty result of \<open>generateTopology\<close>
  has no \<open>layers\<close> property.\<close>

record network = "position typed_graph" +
  layers :: "nat option"

text \<open>
  The local variables of a generator: the arrays under construction and the number of
  \<open>Math.random()\<close> calls made so far. The layered generators also keep
  \<open>layerCocoonIds\<close> (an array that is assigned by index, so a map from indices) and
  \<open>cocoonId\<close>.
\<close>

record rnd_state = "position typed_graph" +
  draws :: nat

record gen_state = rnd_state +
  layerCocoonIds :: "nat \<rightharpoonup> nat list"
  cocoonId :: nat

record struct_state = "node graph" +
  sdraws :: nat

text \<open>
  A topology config, as far as the generators read it: \<open>generator.type\<close>,
  \<open>parameters.<name>.default\<close> and \<open>visualization.typeDistribution.<role>\<close>. The files
  \<open>data/topologies/*.json\<close> are not part of the sources, so every field is an input.
\<close>

record topology =
  generator_type :: string
  numLayers :: nat
  kNeighbors :: nat
  rewireProb :: real
  endCocoons :: int
  centerCocoons :: int
  apex :: "string list"
  middle :: "string list"
  base :: "string list"
  input :: "string list"
  compress :: "string list"
  center :: "string list"
  expand :: "string list"
  "output" :: "string list"

text \<open>A structure config: \<open>generator.nodeDistribution\<close> and the two parameters.\<close>

record structure_config =
  nodeDistribution :: string
  distanceThreshold :: real
  connectionDensity :: real

text \<open>
  \<open>DataManager\<close>: the keys of \<open>types\<close> in the order \<open>Object.keys\<close> lists them, and the own
  properties of \<open>topologies\<close> and \<open>structures\<close>.
\<close>

record DataManager =
  type_names :: "string list"
  topologies :: "string \<rightharpoonup> topology"
  structures :: "string \<rightharpoonup> structure_config"

datatype failure = TypeError | Diverges

text \<open>
  What \<open>obj[name] || null\<close> evaluates to when \<open>obj\<close> is an object literal whose own
  properties are config objects: the own property; a member inherited from
  \<open>Object.prototype\<close> (a function, or for \<open>__proto__\<close> the prototype object: truthy, and
  without a property \<open>generator\<close>); or \<open>null\<close>.
\<close>

datatype 'c lookup = Config 'c | Builtin | Null

subsection \<open>Arrays and loops\<close>

text \<open>\<open>xs[i]\<close> for reading.\<close>

definition js_nth :: "'a list \<Rightarrow> nat \<Rightarrow> 'a option" where
  "js_nth xs i = (if i < length xs then Some (xs ! i) else None)"

text \<open>\<open>layerTypes[i % layerTypes.length]\<close>: with an empty table the index is \<open>NaN\<close> and
  the element \<open>undefined\<close>.\<close>

definition pick_type :: "string list \<Rightarrow> nat \<Rightarrow> string option" where
  "pick_type layerTypes i =
     (if layerTypes = [] then None else js_nth layerTypes (i mod length layerTypes))"

text \<open>\<open>Math.floor(Math.random() * n)\<close>, the draw being \<open>r\<close>; \<open>Math.random()\<close> is never
  negative.\<close>

definition random_index :: "real \<Rightarrow> nat \<Rightarrow> nat" where
  "random_index r n = nat \<lfloor>r * real n\<rfloor>"

text \<open>A \<open>for\<close> loop over the given indices whose body can fail.\<close>

fun for_each :: "'i list \<Rightarrow> ('i \<Rightarrow> 's \<Rightarrow> failure + 's) \<Rightarrow> 's \<Rightarrow> failure + 's" where
  "for_each [] body s = Inr s"
| "for_each (i # rest) body s =
     (case body i s of Inl e \<Rightarrow> Inl e | Inr s' \<Rightarrow> for_each rest body s')"

definition init_state :: gen_state where
  "init_state = \<lparr>positions = [], connections = [], types = [], draws = 0,
     layerCocoonIds = Map.empty, cocoonId = 0\<rparr>"

definition result :: "(position, 'z) typed_graph_scheme \<Rightarrow> nat \<Rightarrow> network" where
  "result st n = \<lparr>positions = positions st, connections = connections st,
     types = types st, layers = Some n\<rparr>"

subsection \<open>\<open>generateFunnel\<close> and \<open>generateHourglass\<close>\<close>

text \<open>
  The loop over \<open>c\<close> (lines 78 to 85 and 355 to 362): the fan-in connections of node \<open>i\<close>
  of a layer of \<open>count\<close> nodes; \<open>step\<close> is 0.2 in the funnel and 0.15 in the hourglass.
\<close>

definition fan_in :: "real \<Rightarrow> nat list \<Rightarrow> nat \<Rightarrow> nat \<Rightarrow> nat \<Rightarrow> connection list" where
  "fan_in step prevLayer i count cid =
     map (\<lambda>c. \<lparr>from = js_nth prevLayer
                   ((nat \<lfloor>real (i * length prevLayer) / real count\<rfloor> + c) mod length prevLayer),
                to = cid, weight = 1 - real c * step\<rparr>)
       [0..<min 3 (length prevLayer)]"

text \<open>
  The body of the loop over \<open>i\<close> (lines 63 to 89 and 340 to 366), which the two generators
  share word for word up to \<open>step\<close>.
\<close>

definition layered_node ::
  "real \<Rightarrow> nat \<Rightarrow> string list \<Rightarrow> nat \<Rightarrow> nat \<Rightarrow> gen_state \<Rightarrow> failure + gen_state" where
  "layered_node step l layerTypes count i st =
     (case layerCocoonIds st l of
        None \<Rightarrow> Inl TypeError
      | Some ids \<Rightarrow>
          let st1 = st\<lparr>positions := positions st @ [\<lparr>layer = l\<rparr>],
                       types := types st @ [pick_type layerTypes i],
                       layerCocoonIds := (layerCocoonIds st)(l \<mapsto> ids @ [cocoonId st])\<rparr>
          in if 0 < l
             then (case layerCocoonIds st1 (l - 1) of
                     None \<Rightarrow> Inl TypeError
                   | Some prevLayer \<Rightarrow>
                       Inr (st1\<lparr>connections := connections st1 @
                                  (if 0 < length prevLayer
                                   then fan_in step prevLayer i count (cocoonId st1) else []),
                                cocoonId := cocoonId st1 + 1\<rparr>))
             else Inr (st1\<lparr>cocoonId := cocoonId st1 + 1\<rparr>))"

text \<open>The rest of the body of the loop over \<open>layer\<close>, given the layer's \<open>count\<close> and type
  table. Inside the loop over \<open>i\<close> the count is a positive integer, the number of rounds.\<close>

definition layered_layer ::
  "real \<Rightarrow> jsnum \<Rightarrow> string list \<Rightarrow> nat \<Rightarrow> gen_state \<Rightarrow> failure + gen_state" where
  "layered_layer step count layerTypes l st =
     (case trip_count count of
        None \<Rightarrow> Inl Diverges
      | Some n \<Rightarrow>
          for_each [0..<n] (layered_node step l layerTypes n)
            (st\<lparr>layerCocoonIds := (layerCocoonIds st)(l \<mapsto> [])\<rparr>))"

text \<open>Lines 50 and 51.\<close>

definition funnel_count :: "nat \<Rightarrow> int \<Rightarrow> nat \<Rightarrow> jsnum" where
  "funnel_count n targetCount l =
     (let ratio = js_div (real l) (real_of_int (int n - 1))
      in js_max 1 (js_floor (js_plus 1
           (js_times (to_double (real_of_int (targetCount - 1))) (js_sq ratio)))))"

text \<open>Lines 58 to 61.\<close>

definition funnel_types :: "topology \<Rightarrow> nat \<Rightarrow> string list" where
  "funnel_types config l =
     (if l = 0 then apex config
      else if int l = int (numLayers config) - 1 then base config
      else middle config)"

text \<open>The body of the loop over \<open>layer\<close> (lines 50 to 89).\<close>

definition funnel_layer :: "topology \<Rightarrow> int \<Rightarrow> nat \<Rightarrow> gen_state \<Rightarrow> failure + gen_state" where
  "funnel_layer config targetCount l st =
     layered_layer (2 / 10) (funnel_count (numLayers config) targetCount l)
       (funnel_types config l) l st"

definition generateFunnel :: "topology \<Rightarrow> int \<Rightarrow> failure + network" where
  "generateFunnel config targetCount =
     (case for_each [0..<numLayers config] (funnel_layer config targetCount) init_state of
        Inl e \<Rightarrow> Inl e
      | Inr st \<Rightarrow> Inr (result st (numLayers config)))"

text \<open>Lines 311 to 322.\<close>

definition hourglass_count :: "topology \<Rightarrow> nat \<Rightarrow> jsnum" where
  "hourglass_count config l =
     (let midLayer = numLayers config div 2;
          distFromCenter = \<bar>int l - int midLayer\<bar>;
          maxDist = midLayer;
          ratio = js_div (real_of_int distFromCenter) (real maxDist)
      in js_round (js_plus (real_of_int (centerCocoons config))
                    (js_times (to_double (real_of_int (endCocoons config - centerCocoons config)))
                       ratio)))"

text \<open>Lines 333 to 338.\<close>

definition hourglass_types :: "topology \<Rightarrow> nat \<Rightarrow> string list" where
  "hourglass_types config l =
     (let midLayer = numLayers config div 2
      in if l = 0 then input config
         else if l < midLayer then compress config
         else if l = midLayer then center config
         else if int l < int (numLayers config) - 1 then expand config
         else output config)"

text \<open>The body of the loop over \<open>layer\<close> (lines 316 to 367).\<close>

definition hourglass_layer :: "topology \<Rightarrow> nat \<Rightarrow> gen_state \<Rightarrow> failure + gen_state" where
  "hourglass_layer config l st =
     layered_layer (15 / 100) (hourglass_count config l) (hourglass_types config l) l st"

text \<open>\<open>targetCount\<close> is a parameter the body never reads.\<close>

definition generateHourglass :: "topology \<Rightarrow> int \<Rightarrow> failure + network" where
  "generateHourglass config targetCount =
     (case for_each [0..<numLayers config] (hourglass_layer config) init_state of
        Inl e \<Rightarrow> Inl e
      | Inr st \<Rightarrow> Inr (result st (numLayers config)))"

subsection \<open>\<open>generateOnion\<close>\<close>

text \<open>Line 111; every operand is finite and the divisor is 10.\<close>

definition onion_count :: "int \<Rightarrow> nat \<Rightarrow> nat" where
  "onion_count targetCount l =
     nat (max 1 \<lfloor>real_of_int (targetCount * (int l + 1)) / 10\<rfloor>)"

text \<open>
  The body of the loop over \<open>i\<close> (lines 118 to 140). The draws are made in this order: the
  type; in a layer above 0 the coin of the connection; when the coin is below 0.5, the index
  into the inner layer.
\<close>

definition onion_node ::
  "(nat \<Rightarrow> real) \<Rightarrow> string list \<Rightarrow> nat \<Rightarrow> nat \<Rightarrow> gen_state \<Rightarrow> failure + gen_state" where
  "onion_node rnd typeNames l i st =
     (case layerCocoonIds st l of
        None \<Rightarrow> Inl TypeError
      | Some ids \<Rightarrow>
          let st1 = st\<lparr>positions := positions st @ [\<lparr>layer = l\<rparr>],
                       types := types st @ [js_nth typeNames (random_index (rnd (draws st)) 4)],
                       draws := draws st + 1,
                       layerCocoonIds := (layerCocoonIds st)(l \<mapsto> ids @ [cocoonId st])\<rparr>
          in if 0 < l
             then (if rnd (draws st1) < 1 / 2
                   then (case layerCocoonIds st1 (l - 1) of
                           None \<Rightarrow> Inl TypeError
                         | Some prevLayer \<Rightarrow>
                             let prevIdx = random_index (rnd (draws st1 + 1)) (length prevLayer)
                             in Inr (st1\<lparr>connections := connections st1 @
                                          [\<lparr>from = js_nth prevLayer prevIdx,
                                            to = cocoonId st1, weight = 8 / 10\<rparr>],
                                        draws := draws st1 + 2,
                                        cocoonId := cocoonId st1 + 1\<rparr>))
                   else Inr (st1\<lparr>draws := draws st1 + 1, cocoonId := cocoonId st1 + 1\<rparr>))
             else Inr (st1\<lparr>cocoonId := cocoonId st1 + 1\<rparr>))"

definition onion_layer ::
  "(nat \<Rightarrow> real) \<Rightarrow> string list \<Rightarrow> int \<Rightarrow> nat \<Rightarrow> gen_state \<Rightarrow> failure + gen_state" where
  "onion_layer rnd typeNames targetCount l st =
     for_each [0..<onion_count targetCount l] (onion_node rnd typeNames l)
       (st\<lparr>layerCocoonIds := (layerCocoonIds st)(l \<mapsto> [])\<rparr>)"

definition generateOnion ::
  "DataManager \<Rightarrow> (nat \<Rightarrow> real) \<Rightarrow> topology \<Rightarrow> int \<Rightarrow> failure + network" where
  "generateOnion dm rnd config targetCount =
     (case for_each [0..<numLayers config] (onion_layer rnd (type_names dm) targetCount)
             init_state of
        Inl e \<Rightarrow> Inl e
      | Inr st \<Rightarrow> Inr (result st (numLayers config)))"

subsection \<open>\<open>generateSmallWorld\<close>\<close>

text \<open>
  The body of the first loop (lines 162 to 172): three draws for the jitter of \<open>x\<close>, \<open>y\<close>
  and \<open>z\<close>, then the type, with a fourth draw in the third branch.
\<close>

definition smallworld_node ::
  "(nat \<Rightarrow> real) \<Rightarrow> string list \<Rightarrow> int \<Rightarrow> nat \<Rightarrow> rnd_state \<Rightarrow> rnd_state" where
  "smallworld_node rnd typeNames cocoonCount i st =
     (let st1 = st\<lparr>positions := positions st @ [\<lparr>layer = 0\<rparr>], draws := draws st + 3\<rparr>
      in if real i < real_of_int cocoonCount * (1 / 10)
         then st1\<lparr>types := types st1 @ [Some ''sensor'']\<rparr>
         else if real i > real_of_int cocoonCount * (9 / 10)
         then st1\<lparr>types := types st1 @ [Some ''processor'']\<rparr>
         else st1\<lparr>types := types st1 @ [js_nth typeNames (random_index (rnd (draws st1)) 4)],
                  draws := draws st1 + 1\<rparr>)"

text \<open>
  Lines 182 to 185, from draw number \<open>d\<close> on: a target is drawn until it differs from
  \<open>i\<close>; the result is the target and the number of the next draw. The loop need not end.
\<close>

partial_function (option) rewire :: "(nat \<Rightarrow> real) \<Rightarrow> nat \<Rightarrow> nat \<Rightarrow> nat \<Rightarrow> (nat \<times> nat) option" where
  "rewire rnd cocoonCount i d =
     (let target = random_index (rnd d) cocoonCount
      in if target = i then rewire rnd cocoonCount i (d + 1) else Some (target, d + 1))"

declare rewire.simps [code]

text \<open>The body of the loop over \<open>j\<close> (lines 178 to 192); inside it \<open>cocoonCount\<close> is
  positive.\<close>

definition smallworld_edge ::
  "(nat \<Rightarrow> real) \<Rightarrow> topology \<Rightarrow> nat \<Rightarrow> nat \<Rightarrow> nat \<Rightarrow> rnd_state \<Rightarrow> failure + rnd_state" where
  "smallworld_edge rnd config cocoonCount i j st =
     (if rnd (draws st) < rewireProb config
      then (case rewire rnd cocoonCount i (draws st + 1) of
              None \<Rightarrow> Inl Diverges
            | Some (target, d) \<Rightarrow>
                Inr (st\<lparr>connections := connections st @
                          [\<lparr>from = Some i, to = target, weight = 7 / 10\<rparr>],
                        draws := d\<rparr>))
      else Inr (st\<lparr>connections := connections st @
                     [\<lparr>from = Some i, to = (i + j) mod cocoonCount, weight = 7 / 10\<rparr>],
                   draws := draws st + 1\<rparr>))"

text \<open>\<open>j\<close> runs from 1 while \<open>j <= k / 2\<close>, that is up to \<open>k div 2\<close>.\<close>

definition generateSmallWorld ::
  "DataManager \<Rightarrow> (nat \<Rightarrow> real) \<Rightarrow> topology \<Rightarrow> int \<Rightarrow> failure + network" where
  "generateSmallWorld dm rnd config cocoonCount =
     (let n = nat cocoonCount;
          k = kNeighbors config;
          st0 = \<lparr>positions = [], connections = [], types = [], draws = 0\<rparr>;
          st1 = fold (smallworld_node rnd (type_names dm) cocoonCount) [0..<n] st0
      in case for_each [0..<n]
                (\<lambda>i. for_each [1..<Suc (k div 2)] (smallworld_edge rnd config n i)) st1 of
           Inl e \<Rightarrow> Inl e
         | Inr st \<Rightarrow> Inr (result st 1))"

subsection \<open>\<open>generateTopology\<close>\<close>

text \<open>The property names every object inherits from \<open>Object.prototype\<close>.\<close>

definition object_prototype :: "string list" where
  "object_prototype =
     [''constructor'', ''hasOwnProperty'', ''isPrototypeOf'', ''propertyIsEnumerable'',
      ''toLocaleString'', ''toString'', ''valueOf'', ''__proto__'', ''__defineGetter__'',
      ''__defineSetter__'', ''__lookupGetter__'', ''__lookupSetter__'']"

text \<open>\<open>obj[name] || null\<close>, as in \<open>getTopology\<close> and \<open>getStructure\<close>.\<close>

definition get_or_null :: "(string \<rightharpoonup> 'c) \<Rightarrow> string \<Rightarrow> 'c lookup" where
  "get_or_null obj name =
     (case obj name of
        Some c \<Rightarrow> Config c
      | None \<Rightarrow> if name \<in> set object_prototype then Builtin else Null)"

definition getTopology :: "DataManager \<Rightarrow> string \<Rightarrow> topology lookup" where
  "getTopology dm name = get_or_null (topologies dm) name"

definition getStructure :: "DataManager \<Rightarrow> string \<Rightarrow> structure_config lookup" where
  "getStructure dm name = get_or_null (structures dm) name"

definition empty_network :: network where
  "empty_network = \<lparr>positions = [], connections = [], types = [], layers = None\<rparr>"

text \<open>
  The third parameter, \<open>structure\<close>, is never read. On an inherited member
  \<open>topology.generator\<close> is \<open>undefined\<close> and reading its \<open>type\<close> throws.
\<close>

definition generateTopology ::
  "DataManager \<Rightarrow> (nat \<Rightarrow> real) \<Rightarrow> string \<Rightarrow> int \<Rightarrow> 'a \<Rightarrow> failure + network" where
  "generateTopology dm rnd topologyName cocoonCount struct =
     (case getTopology dm topologyName of
        Null \<Rightarrow> Inr empty_network
      | Builtin \<Rightarrow> Inl TypeError
      | Config topology \<Rightarrow>
          if generator_type topology = ''funnel'' then generateFunnel topology cocoonCount
          else if generator_type topology = ''onion''
            then generateOnion dm rnd topology cocoonCount
          else if generator_type topology = ''smallworld''
            then generateSmallWorld dm rnd topology cocoonCount
          else if generator_type topology = ''hourglass''
            then generateHourglass topology cocoonCount
          else Inr empty_network)"

subsection \<open>The structure generators\<close>

text \<open>Lines 236 and 277.\<close>

definition node_type :: "int \<Rightarrow> nat \<Rightarrow> string" where
  "node_type nodeCount i =
     (if i < 8 then ''input''
      else if int i \<ge> nodeCount - 8 then ''output''
      else ''internal'')"

text \<open>
  The body of the loop over \<open>j\<close> (lines 243 to 255). \<open>distance i j\<close> is the value \<open>dist\<close> the source
  computes from the coordinates of nodes \<open>i\<close> and \<open>j\<close>; the coin is drawn only when the
  distance is below the threshold.
\<close>

definition sphere_pair ::
  "(nat \<Rightarrow> nat \<Rightarrow> real) \<Rightarrow> (nat \<Rightarrow> real) \<Rightarrow> real \<Rightarrow> nat \<Rightarrow> nat \<Rightarrow> struct_state \<Rightarrow> struct_state" where
  "sphere_pair distance rnd threshold i j st =
     (if distance i j < threshold * 4
      then (if rnd (sdraws st) < 1 / 4
            then st\<lparr>connections := connections st @
                      [\<lparr>from = Some i, to = j, weight = 1 - distance i j / (threshold * 4)\<rparr>],
                    sdraws := sdraws st + 1\<rparr>
            else st\<lparr>sdraws := sdraws st + 1\<rparr>)
      else st)"

definition generateSphereSurface ::
  "(nat \<Rightarrow> nat \<Rightarrow> real) \<Rightarrow> (nat \<Rightarrow> real) \<Rightarrow> structure_config \<Rightarrow> int \<Rightarrow> node graph" where
  "generateSphereSurface distance rnd config nodeCount =
     (let threshold = distanceThreshold config;
          ps = map (\<lambda>i. \<lparr>type = node_type nodeCount i\<rparr>) [0..<nat nodeCount];
          st = fold (\<lambda>i. fold (sphere_pair distance rnd threshold i) [i + 1..<length ps])
                 [0..<length ps] \<lparr>positions = ps, connections = [], sdraws = 0\<rparr>
      in \<lparr>positions = positions st, connections = connections st\<rparr>)"

text \<open>The body of the loop over \<open>j\<close> (lines 284 to 290): the coin, then the weight.\<close>

definition random_pair ::
  "(nat \<Rightarrow> real) \<Rightarrow> real \<Rightarrow> nat \<Rightarrow> nat \<Rightarrow> struct_state \<Rightarrow> struct_state" where
  "random_pair rnd density i j st =
     (if rnd (sdraws st) < density * (15 / 100)
      then st\<lparr>connections := connections st @
                [\<lparr>from = Some i, to = j, weight = rnd (sdraws st + 1)\<rparr>],
              sdraws := sdraws st + 2\<rparr>
      else st\<lparr>sdraws := sdraws st + 1\<rparr>)"

text \<open>The first loop makes three draws for each node.\<close>

definition generateRandomGraph ::
  "(nat \<Rightarrow> real) \<Rightarrow> structure_config \<Rightarrow> int \<Rightarrow> node graph" where
  "generateRandomGraph rnd config nodeCount =
     (let density = connectionDensity config;
          ps = map (\<lambda>i. \<lparr>type = node_type nodeCount i\<rparr>) [0..<nat nodeCount];
          st = fold (\<lambda>i. fold (random_pair rnd density i) [i + 1..<length ps])
                 [0..<length ps]
                 \<lparr>positions = ps, connections = [], sdraws = 3 * nat nodeCount\<rparr>
      in \<lparr>positions = positions st, connections = connections st\<rparr>)"

text \<open>\<open>generateInternalStructure\<close>; the empty result has no \<open>types\<close>.\<close>

definition generateInternalStructure ::
  "DataManager \<Rightarrow> (nat \<Rightarrow> nat \<Rightarrow> real) \<Rightarrow> (nat \<Rightarrow> real) \<Rightarrow> string \<Rightarrow> int \<Rightarrow> failure + node graph" where
  "generateInternalStructure dm distance rnd structureName nodeCount =
     (case getStructure dm structureName of
        Null \<Rightarrow> Inr \<lparr>positions = [], connections = []\<rparr>
      | Builtin \<Rightarrow> Inl TypeError
      | Config struct \<Rightarrow>
          if nodeDistribution struct = ''fibonacci_sphere''
          then Inr (generateSphereSurface distance rnd struct nodeCount)
          else Inr (generateRandomGraph rnd struct nodeCount))"

section \<open>Invariants and auxiliary notions\<close>

definition conn_ok :: "position list \<Rightarrow> connection \<Rightarrow> bool" where
  "conn_ok ps c \<longleftrightarrow>
     (\<exists>f. from c = Some f \<and> f < length ps \<and> to c < length ps \<and>
          layer (ps ! f) + 1 = layer (ps ! to c))"

definition ids_ok :: "position list \<Rightarrow> nat \<Rightarrow> nat list \<Rightarrow> bool" where
  "ids_ok ps l ids \<longleftrightarrow> (\<forall>k\<in>set ids. k < length ps \<and> layer (ps ! k) = l)"

definition layered_inv :: "nat \<Rightarrow> gen_state \<Rightarrow> bool" where
  "layered_inv L st \<longleftrightarrow>
     cocoonId st = length (positions st) \<and> length (types st) = length (positions st) \<and>
     (\<forall>l<L. \<exists>ids. layerCocoonIds st l = Some ids \<and> ids_ok (positions st) l ids) \<and>
     (\<forall>c\<in>set (connections st). conn_ok (positions st) c)"

definition rounds :: "jsnum \<Rightarrow> nat" where
  "rounds count = (case trip_count count of Some n \<Rightarrow> n | None \<Rightarrow> 0)"

definition layer_blocks :: "(nat \<Rightarrow> nat) \<Rightarrow> nat \<Rightarrow> position list" where
  "layer_blocks sz L = concat (map (\<lambda>l. replicate (sz l) \<lparr>layer = l\<rparr>) [0..<L])"

definition layer_size :: "network \<Rightarrow> nat \<Rightarrow> nat" where
  "layer_size r l = length (filter (\<lambda>p. layer p = l) (positions r))"

definition filled :: "nat \<Rightarrow> gen_state \<Rightarrow> bool" where
  "filled L st \<longleftrightarrow> (\<forall>l<L. layerCocoonIds st l \<noteq> Some [])"

definition unit_draws :: "(nat \<Rightarrow> real) \<Rightarrow> bool" where
  "unit_draws rnd \<longleftrightarrow> (\<forall>k. 0 \<le> rnd k \<and> rnd k < 1)"

definition lattice_edge :: "nat \<Rightarrow> nat \<Rightarrow> nat \<Rightarrow> connection" where
  "lattice_edge n i j = \<lparr>from = Some i, to = (i + j) mod n, weight = 7 / 10\<rparr>"

definition smallworld_type_ok :: "(nat \<Rightarrow> real) \<Rightarrow> string list \<Rightarrow> int \<Rightarrow> nat \<Rightarrow> string option \<Rightarrow> bool" where
  "smallworld_type_ok rnd typeNames cocoonCount i ty \<longleftrightarrow>
     (if real i < real_of_int cocoonCount * (1 / 10) then ty = Some ''sensor''
      else if real i > real_of_int cocoonCount * (9 / 10) then ty = Some ''processor''
      else \<exists>d. ty = js_nth typeNames (random_index (rnd d) 4))"

definition pair_ok :: "nat \<Rightarrow> connection \<Rightarrow> bool" where
  "pair_ok n c \<longleftrightarrow> (\<exists>i. from c = Some i \<and> i < to c \<and> to c < n)"

definition arrays_inv :: "nat \<Rightarrow> gen_state \<Rightarrow> bool" where
  "arrays_inv L st \<longleftrightarrow>
     length (types st) = length (positions st) \<and> (\<forall>l<L. layerCocoonIds st l \<noteq> None)"

definition index_valid :: "nat \<Rightarrow> connection \<Rightarrow> bool" where
  "index_valid n e \<longleftrightarrow> (\<exists>f. from e = Some f \<and> f < n \<and> to e < n)"

section \<open>Inputs used in the examples\<close>

text \<open>The four type names the repository uses (\<open>sensor\<close>, \<open>processor\<close>, \<open>memory\<close>,
  \<open>modulator\<close>), a topology config with three layers, four ring neighbours and no rewiring,
  and the same config with a single layer and with eleven layers.\<close>

definition example_types :: "string list" where
  "example_types = [''sensor'', ''processor'', ''memory'', ''modulator'']"

definition example_topology :: topology where
  "example_topology = \<lparr>generator_type = ''funnel'', numLayers = 3, kNeighbors = 4,
     rewireProb = 0, endCocoons = 4, centerCocoons = 2,
     apex = [''sensor''], middle = [''memory'', ''modulator''], base = [''processor''],
     input = [''sensor''], compress = [''memory''], center = [''modulator''],
     expand = [''memory''], output = [''processor'']\<rparr>"

definition single_layer :: topology where
  "single_layer = example_topology\<lparr>numLayers := 1\<rparr>"

definition eleven_layers :: topology where
  "eleven_layers = example_topology\<lparr>numLayers := 11\<rparr>"

definition example_structure :: structure_config where
  "example_structure = \<lparr>nodeDistribution = ''fibonacci_sphere'',
     distanceThreshold = 3 / 10, connectionDensity = 1\<rparr>"

definition example_dm :: DataManager where
  "example_dm = \<lparr>type_names = example_types,
     topologies = [''funnel'' \<mapsto> example_topology],
     structures = [''sphere'' \<mapsto> example_structure]\<rparr>"

text \<open>A random source whose every draw is 0, and a distance that puts every pair of nodes
  below the threshold.\<close>

definition rnd_zero :: "nat \<Rightarrow> real" where
  "rnd_zero k = 0"

definition all_near :: "nat \<Rightarrow> nat \<Rightarrow> real" where
  "all_near i j = 0"

section \<open>Properties of the loops and of the generators\<close>

text \<open>The doubles written \<open>0.7\<close>, \<open>0.1\<close> and \<open>0.49\<close> in decimal, the square
  \<open>0.7 * 0.7 = 0.48999999999999994\<close>, and a tie that goes to the even neighbour.\<close>

lemma to_double_examples:
  "to_double (7 / 10) = 6305039478318694 / 2 ^ 53"
  "to_double (1 / 10) = 7205759403792794 / 2 ^ 56"
  "to_double (49 / 100) = 8827055269646172 / 2 ^ 54"
  "to_double ((to_double (7 / 10))\<^sup>2) = 8827055269646171 / 2 ^ 54"
  "to_double (2 ^ 53 + 1) = 2 ^ 53"
  "to_double (1 / 2) = 1 / 2"
  by code_simp+

text \<open>
  \<open>to_double x\<close> is a multiple of the spacing \<open>2^(e - 52)\<close> of the doubles around \<open>x\<close>, by
  its definition, and no further than half that spacing from \<open>x\<close>.
\<close>

lemma round_half_even_close: "\<bar>real_of_int (round_half_even q) - q\<bar> \<le> 1 / 2"
  unfolding round_half_even_def Let_def by (auto simp: abs_if) linarith+

lemma binary_exponent_bounds:
  assumes "x \<noteq> 0"
  shows "2 powi binary_exponent x \<le> \<bar>x\<bar> \<and> \<bar>x\<bar> < 2 powi (binary_exponent x + 1)"
proof (cases "1 \<le> \<bar>x\<bar>")
  case True
  let ?m = "\<lfloor>\<bar>x\<bar>\<rfloor>"
  from True have m: "0 < ?m" by linarith
  from bitlen_bounds[OF m] have b: "2 ^ nat (bitlen ?m - 1) \<le> ?m" "?m < 2 ^ nat (bitlen ?m)"
    by auto
  from m have bl: "1 \<le> bitlen ?m" by (simp add: bitlen_alt_def)
  have e: "binary_exponent x = bitlen ?m - 1" using True by (simp add: binary_exponent_def)
  have 1: "(2::real) powi (bitlen ?m - 1) = 2 ^ nat (bitlen ?m - 1)"
    using bl by (simp add: power_int_def)
  have 2: "(2::real) powi (bitlen ?m - 1 + 1) = 2 ^ nat (bitlen ?m)"
    using bl by (simp add: power_int_def)
  have "real_of_int (2 ^ nat (bitlen ?m - 1)) \<le> real_of_int ?m" using b(1) by linarith
  then have lo: "(2::real) ^ nat (bitlen ?m - 1) \<le> \<bar>x\<bar>" by (simp add: le_floor_iff)
  have h1: "\<bar>x\<bar> < real_of_int ?m + 1" by linarith
  have "?m + 1 \<le> 2 ^ nat (bitlen ?m)" using b(2) by linarith
  then have "real_of_int (?m + 1) \<le> real_of_int (2 ^ nat (bitlen ?m))"
    by (rule of_int_le_iff[THEN iffD2])
  then have h2: "real_of_int ?m + 1 \<le> (2::real) ^ nat (bitlen ?m)" by simp
  from h1 h2 have hi: "\<bar>x\<bar> < (2::real) ^ nat (bitlen ?m)" by (rule less_le_trans)
  from lo hi show ?thesis unfolding e 1 2 by simp
next
  case False
  with assms have x: "0 < \<bar>x\<bar>" "\<bar>x\<bar> < 1" by auto
  let ?y = "1 / \<bar>x\<bar>"
  let ?c = "\<lceil>?y\<rceil> - 1"
  from x have y: "1 < ?y" by simp
  then have c: "0 < ?c" by linarith
  let ?n = "bitlen ?c"
  from bitlen_bounds[OF c] have b: "2 ^ nat (?n - 1) \<le> ?c" "?c < 2 ^ nat ?n" by auto
  from c have bl: "1 \<le> ?n" by (simp add: bitlen_alt_def)
  have e: "binary_exponent x = - ?n" using False by (simp add: binary_exponent_def)
  have "real_of_int ?c < ?y" by linarith
  with b(1) have "real_of_int (2 ^ nat (?n - 1)) < ?y" by linarith
  then have l1: "(2::real) ^ nat (?n - 1) < ?y" by simp
  have g1: "?y \<le> real_of_int ?c + 1" by linarith
  have "?c + 1 \<le> 2 ^ nat ?n" using b(2) by linarith
  then have "real_of_int (?c + 1) \<le> real_of_int (2 ^ nat ?n)"
    by (rule of_int_le_iff[THEN iffD2])
  then have g2: "real_of_int ?c + 1 \<le> (2::real) ^ nat ?n" by simp
  from g1 g2 have l2: "?y \<le> (2::real) ^ nat ?n" by (rule order_trans)
  have p1: "(2::real) powi (- ?n) = 1 / 2 ^ nat ?n"
    using bl by (simp add: power_int_def field_simps)
  have p2: "(2::real) powi (- ?n + 1) = 1 / 2 ^ nat (?n - 1)"
  proof -
    have "- ?n + 1 = - (?n - 1)" by simp
    moreover have "0 \<le> ?n - 1" using bl by simp
    ultimately show ?thesis by (simp add: power_int_def field_simps)
  qed
  from l2 x have lo: "1 / 2 ^ nat ?n \<le> \<bar>x\<bar>"
    by (simp add: field_simps)
  from l1 x have hi: "\<bar>x\<bar> < 1 / 2 ^ nat (?n - 1)"
    by (simp add: field_simps)
  from lo hi show ?thesis unfolding e p1 p2 by simp
qed

lemma to_double_close:
  assumes "x \<noteq> 0"
  shows "\<bar>to_double x - x\<bar> \<le> 2 powi (max (binary_exponent x) (- 1022) - 53)"
proof -
  define e where "e = max (binary_exponent x) (- 1022)"
  define ulp :: real where "ulp = 2 powi (e - 52)"
  have u: "0 < ulp" by (simp add: ulp_def)
  have t: "to_double x = of_int (round_half_even (x / ulp)) * ulp"
    using assms by (simp add: to_double_def e_def ulp_def Let_def)
  have "to_double x - x = (real_of_int (round_half_even (x / ulp)) - x / ulp) * ulp"
    unfolding t using u by (simp add: left_diff_distrib)
  then have "\<bar>to_double x - x\<bar> = \<bar>real_of_int (round_half_even (x / ulp)) - x / ulp\<bar> * ulp"
    using u by (simp add: abs_mult)
  also have "\<dots> \<le> (1 / 2) * ulp"
    using round_half_even_close[of "x / ulp"] u by (intro mult_right_mono) simp_all
  also have "\<dots> = 2 powi (e - 53)"
  proof -
    have "(2::real) powi ((e - 53) + 1) = 2 powi (e - 53) * 2"
      by (subst power_int_add) simp_all
    then have "ulp = 2 powi (e - 53) * 2" unfolding ulp_def by (simp add: algebra_simps)
    then show ?thesis by simp
  qed
  finally show ?thesis unfolding e_def .
qed

text \<open>The counts of layer 7 of 11 in a funnel of \<open>targetCount = 101\<close>, and of layer 3 of 20
  in an hourglass from 45 down to 0 cocoons: \<open>45 * 0.7\<close> is \<open>31.499999999999996\<close>.\<close>

lemma count_examples:
  "funnel_count 11 101 7 = Fin 49"
  "hourglass_count (example_topology\<lparr>numLayers := 20, endCocoons := 45, centerCocoons := 0\<rparr>) 3
     = Fin 31"
  by code_simp+

lemma for_each_upt:
  assumes "I a s" and "a \<le> b"
    and step: "\<And>i t. a \<le> i \<Longrightarrow> i < b \<Longrightarrow> I i t \<Longrightarrow> \<exists>t'. body i t = Inr t' \<and> I (Suc i) t'"
  shows "\<exists>s'. for_each [a..<b] body s = Inr s' \<and> I b s'"
  using assms
proof (induction "b - a" arbitrary: a s)
  case 0
  then show ?case by simp
next
  case (Suc n)
  then have lt: "a < b" by simp
  from Suc.prems(3)[of a s] lt Suc.prems(1) obtain t where t: "body a s = Inr t" "I (Suc a) t"
    by auto
  have "\<exists>s'. for_each [Suc a..<b] body t = Inr s' \<and> I b s'"
  proof (rule Suc.hyps(1))
    show "n = b - Suc a" using Suc.hyps(2) by simp
    show "I (Suc a) t" by (rule t)
    show "Suc a \<le> b" using lt by simp
    show "\<And>i t. Suc a \<le> i \<Longrightarrow> i < b \<Longrightarrow> I i t \<Longrightarrow> \<exists>t'. body i t = Inr t' \<and> I (Suc i) t'"
      using Suc.prems(3) by simp
  qed
  then show ?case using lt t by (simp add: upt_conv_Cons)
qed

lemma conn_ok_append: "conn_ok ps c \<Longrightarrow> conn_ok (ps @ qs) c"
  by (auto simp: conn_ok_def nth_append)

lemma ids_ok_append: "ids_ok ps l ids \<Longrightarrow> ids_ok (ps @ qs) l ids"
  by (auto simp: ids_ok_def nth_append)

lemma ids_ok_snoc: "ids_ok ps l ids \<Longrightarrow> ids_ok (ps @ [\<lparr>layer = l\<rparr>]) l (ids @ [length ps])"
  by (auto simp: ids_ok_def nth_append)

lemma fan_in_ok:
  assumes "prev \<noteq> []" "c \<in> set (fan_in step prev i n cid)"
  shows "\<exists>f. from c = Some f \<and> f \<in> set prev \<and> to c = cid"
  using assms by (auto simp: fan_in_def js_nth_def)

lemma fan_in_conn_ok:
  assumes "prev \<noteq> []" "ids_ok ps (l - 1) prev" "0 < l"
    and "c \<in> set (fan_in step prev i n (length ps))"
  shows "conn_ok (ps @ [\<lparr>layer = l\<rparr>]) c"
proof -
  from fan_in_ok[OF assms(1,4)] obtain f where f: "from c = Some f" "f \<in> set prev" "to c = length ps"
    by blast
  from assms(2) f(2) have "f < length ps" "layer (ps ! f) = l - 1"
    by (auto simp: ids_ok_def)
  with f assms(3) show ?thesis
    by (simp add: conn_ok_def nth_append)
qed

lemma layered_node_eq:
  assumes "layerCocoonIds st l = Some ids"
    and "0 < l \<Longrightarrow> layerCocoonIds st (l - 1) = Some prev"
  shows "layered_node step l lt n i st =
     Inr (st\<lparr>positions := positions st @ [\<lparr>layer = l\<rparr>],
             types := types st @ [pick_type lt i],
             layerCocoonIds := (layerCocoonIds st)(l \<mapsto> ids @ [cocoonId st]),
             connections := connections st @
               (if 0 < l \<and> prev \<noteq> [] then fan_in step prev i n (cocoonId st) else []),
             cocoonId := cocoonId st + 1\<rparr>)"
  using assms by (cases "0 < l") (simp_all add: layered_node_def Let_def)

lemma layered_node_inv:
  assumes inv: "layered_inv (Suc l) st"
  shows "\<exists>st'. layered_node step l lt n i st = Inr st' \<and> layered_inv (Suc l) st' \<and>
           positions st' = positions st @ [\<lparr>layer = l\<rparr>]"
proof -
  let ?ps = "positions st" and ?ps' = "positions st @ [\<lparr>layer = l\<rparr>]"
  from inv have cid: "cocoonId st = length ?ps" and ty: "length (types st) = length ?ps"
    and lay: "\<And>k. k < Suc l \<Longrightarrow> \<exists>ids. layerCocoonIds st k = Some ids \<and> ids_ok ?ps k ids"
    and con: "\<And>c. c \<in> set (connections st) \<Longrightarrow> conn_ok ?ps c"
    by (auto simp: layered_inv_def)
  from lay[of l] obtain ids where ids: "layerCocoonIds st l = Some ids" "ids_ok ?ps l ids"
    by auto
  have "l - 1 < Suc l" by simp
  from lay[OF this] obtain prev where prev: "layerCocoonIds st (l - 1) = Some prev"
    "ids_ok ?ps (l - 1) prev" by blast
  define st' where "st' = st\<lparr>positions := ?ps',
             types := types st @ [pick_type lt i],
             layerCocoonIds := (layerCocoonIds st)(l \<mapsto> ids @ [cocoonId st]),
             connections := connections st @
               (if 0 < l \<and> prev \<noteq> [] then fan_in step prev i n (cocoonId st) else []),
             cocoonId := cocoonId st + 1\<rparr>"
  have eq: "layered_node step l lt n i st = Inr st'"
    unfolding st'_def by (rule layered_node_eq) (use ids prev in auto)
  have 0: "positions st' = ?ps'" by (simp add: st'_def)
  have 1: "cocoonId st' = length (positions st')" "length (types st') = length (positions st')"
    by (simp_all add: st'_def cid ty)
  have 2: "\<exists>ids'. layerCocoonIds st' k = Some ids' \<and> ids_ok (positions st') k ids'" if "k < Suc l" for k
  proof (cases "k = l")
    case True
    then show ?thesis using ids_ok_snoc[OF ids(2)] by (simp add: st'_def cid)
  next
    case False
    with lay[OF that] show ?thesis by (auto simp: st'_def intro: ids_ok_append)
  qed
  have 3: "conn_ok (positions st') c" if "c \<in> set (connections st')" for c
  proof (cases "c \<in> set (connections st)")
    case True
    then show ?thesis using con conn_ok_append by (simp add: st'_def)
  next
    case False
    with that have "0 < l" "prev \<noteq> []" "c \<in> set (fan_in step prev i n (length ?ps))"
      by (auto simp: st'_def cid split: if_splits)
    then show ?thesis using fan_in_conn_ok[OF _ prev(2)] by (simp add: st'_def)
  qed
  from 1 2 3 have "layered_inv (Suc l) st'"
    unfolding layered_inv_def by blast
  with eq 0 show ?thesis by blast
qed

lemma layered_layer_inv:
  assumes inv: "layered_inv l st" and fin: "trip_count count \<noteq> None"
  shows "\<exists>st'. layered_layer step count lt l st = Inr st' \<and> layered_inv (Suc l) st' \<and>
           positions st' = positions st @ replicate (rounds count) \<lparr>layer = l\<rparr>"
proof -
  from fin obtain n where n: "trip_count count = Some n" by auto
  let ?st1 = "st\<lparr>layerCocoonIds := (layerCocoonIds st)(l \<mapsto> [])\<rparr>"
  let ?I = "\<lambda>i t. layered_inv (Suc l) t \<and> positions t = positions st @ replicate i \<lparr>layer = l\<rparr>"
  from inv have "layered_inv (Suc l) ?st1"
    by (auto simp: layered_inv_def ids_ok_def less_Suc_eq)
  then have start: "?I 0 ?st1" by simp
  have "\<exists>s'. for_each [0..<n] (layered_node step l lt n) ?st1 = Inr s' \<and> ?I n s'"
  proof (rule for_each_upt[where I = ?I, OF start])
    fix i t assume "?I i t"
    with layered_node_inv[of l t step lt n i]
    show "\<exists>t'. layered_node step l lt n i t = Inr t' \<and> ?I (Suc i) t'"
      by (auto simp: replicate_append_same)
  qed simp
  then show ?thesis by (simp add: layered_layer_def n rounds_def)
qed

lemma layered_run:
  assumes fin: "\<And>l. l < N \<Longrightarrow> trip_count (cnt l) \<noteq> None"
  shows "\<exists>st. for_each [0..<N] (\<lambda>l. layered_layer step (cnt l) (tys l) l) init_state = Inr st \<and>
           layered_inv N st \<and> positions st = layer_blocks (\<lambda>l. rounds (cnt l)) N"
proof -
  let ?I = "\<lambda>L t. layered_inv L t \<and> positions t = layer_blocks (\<lambda>l. rounds (cnt l)) L"
  have start: "?I 0 init_state"
    by (simp add: layered_inv_def init_state_def layer_blocks_def)
  show ?thesis
  proof (rule for_each_upt[where I = ?I, OF start])
    fix l t assume "l < N" "?I l t"
    with layered_layer_inv[of l t "cnt l" step "tys l"] fin[of l]
    show "\<exists>t'. layered_layer step (cnt l) (tys l) l t = Inr t' \<and> ?I (Suc l) t'"
      by (auto simp: layer_blocks_def)
  qed simp
qed

lemma layer_blocks_filter:
  "filter (\<lambda>p. layer p = k) (layer_blocks sz L) =
     (if k < L then replicate (sz k) \<lparr>layer = k\<rparr> else [])"
  by (induction L) (auto simp: layer_blocks_def filter_empty_conv less_Suc_eq)

lemma funnel_count_finite: "l < n \<Longrightarrow> trip_count (funnel_count n t l) \<noteq> None"
  by (cases "n = 1") (auto simp: funnel_count_def js_div_def)

lemma hourglass_count_finite: "l < numLayers c \<Longrightarrow> trip_count (hourglass_count c l) \<noteq> None"
  by (cases "numLayers c div 2 = 0") (auto simp: hourglass_count_def js_div_def Let_def)

lemma conn_ok_result:
  assumes "layered_inv N st" "c \<in> set (connections st)"
  shows "conn_ok (positions st) c"
  using assms by (simp add: layered_inv_def)

lemma funnel_layer_fun:
  "funnel_layer c t =
     (\<lambda>l. layered_layer (2 / 10) (funnel_count (numLayers c) t l) (funnel_types c l) l)"
  by (intro ext) (simp add: funnel_layer_def)

lemma hourglass_layer_fun:
  "hourglass_layer c =
     (\<lambda>l. layered_layer (15 / 100) (hourglass_count c l) (hourglass_types c l) l)"
  by (intro ext) (simp add: hourglass_layer_def)

lemma generateFunnel_run:
  "\<exists>st. generateFunnel c t = Inr (result st (numLayers c)) \<and> layered_inv (numLayers c) st \<and>
     positions st = layer_blocks (\<lambda>l. rounds (funnel_count (numLayers c) t l)) (numLayers c)"
  using layered_run[of "numLayers c" "funnel_count (numLayers c) t" "2/10" "funnel_types c"]
    funnel_count_finite[of _ "numLayers c" t]
  by (auto simp: generateFunnel_def funnel_layer_fun)

lemma generateHourglass_run:
  "\<exists>st. generateHourglass c t = Inr (result st (numLayers c)) \<and> layered_inv (numLayers c) st \<and>
     positions st = layer_blocks (\<lambda>l. rounds (hourglass_count c l)) (numLayers c)"
  using layered_run[of "numLayers c" "hourglass_count c" "15/100" "hourglass_types c"]
    hourglass_count_finite[of _ c]
  by (auto simp: generateHourglass_def hourglass_layer_fun)

lemma random_index_less:
  assumes "0 \<le> r" "r < 1" "0 < n"
  shows "random_index r n < n"
proof -
  have "r * real n < real n" using assms by simp
  then have "\<lfloor>r * real n\<rfloor> < int n" by linarith
  moreover have "0 \<le> \<lfloor>r * real n\<rfloor>" using assms by simp
  ultimately show ?thesis unfolding random_index_def by (simp add: nat_less_iff)
qed

lemma onion_node_eq:
  assumes "layerCocoonIds st l = Some ids"
    and "0 < l \<Longrightarrow> layerCocoonIds st (l - 1) = Some prev"
  shows "onion_node rnd tn l i st =
     Inr (st\<lparr>positions := positions st @ [\<lparr>layer = l\<rparr>],
             types := types st @ [js_nth tn (random_index (rnd (draws st)) 4)],
             layerCocoonIds := (layerCocoonIds st)(l \<mapsto> ids @ [cocoonId st]),
             connections := connections st @
               (if 0 < l \<and> rnd (draws st + 1) < 1 / 2
                then [\<lparr>from = js_nth prev (random_index (rnd (draws st + 2)) (length prev)),
                       to = cocoonId st, weight = 8 / 10\<rparr>] else []),
             draws := draws st + (if 0 < l then (if rnd (draws st + 1) < 1 / 2 then 3 else 2) else 1),
             cocoonId := cocoonId st + 1\<rparr>)"
  using assms by (cases "0 < l") (simp_all add: onion_node_def Let_def)

lemma onion_node_inv:
  assumes rnd: "unit_draws rnd" and inv: "layered_inv (Suc l) st" and fl: "filled l st"
  shows "\<exists>st'. onion_node rnd tn l i st = Inr st' \<and> layered_inv (Suc l) st' \<and>
           filled l st' \<and> layerCocoonIds st' l \<noteq> Some [] \<and>
           positions st' = positions st @ [\<lparr>layer = l\<rparr>]"
proof -
  let ?ps = "positions st" and ?ps' = "positions st @ [\<lparr>layer = l\<rparr>]"
  from inv have cid: "cocoonId st = length ?ps" and ty: "length (types st) = length ?ps"
    and lay: "\<And>k. k < Suc l \<Longrightarrow> \<exists>ids. layerCocoonIds st k = Some ids \<and> ids_ok ?ps k ids"
    and con: "\<And>c. c \<in> set (connections st) \<Longrightarrow> conn_ok ?ps c"
    by (auto simp: layered_inv_def)
  from lay[of l] obtain ids where ids: "layerCocoonIds st l = Some ids" "ids_ok ?ps l ids"
    by auto
  have "l - 1 < Suc l" by simp
  from lay[OF this] obtain prev where prev: "layerCocoonIds st (l - 1) = Some prev"
    "ids_ok ?ps (l - 1) prev" by blast
  let ?new = "\<lparr>from = js_nth prev (random_index (rnd (draws st + 2)) (length prev)),
                       to = cocoonId st, weight = 8 / 10\<rparr>"
  define st' where "st' = st\<lparr>positions := ?ps',
             types := types st @ [js_nth tn (random_index (rnd (draws st)) 4)],
             layerCocoonIds := (layerCocoonIds st)(l \<mapsto> ids @ [cocoonId st]),
             connections := connections st @
               (if 0 < l \<and> rnd (draws st + 1) < 1 / 2 then [?new] else []),
             draws := draws st + (if 0 < l then (if rnd (draws st + 1) < 1 / 2 then 3 else 2) else 1),
             cocoonId := cocoonId st + 1\<rparr>"
  have eq: "onion_node rnd tn l i st = Inr st'"
    unfolding st'_def by (rule onion_node_eq) (use ids prev in auto)
  have 0: "positions st' = ?ps'" by (simp add: st'_def)
  have 1: "cocoonId st' = length (positions st')" "length (types st') = length (positions st')"
    by (simp_all add: st'_def cid ty)
  have 2: "\<exists>ids'. layerCocoonIds st' k = Some ids' \<and> ids_ok (positions st') k ids'" if "k < Suc l" for k
  proof (cases "k = l")
    case True
    then show ?thesis using ids_ok_snoc[OF ids(2)] by (simp add: st'_def cid)
  next
    case False
    with lay[OF that] show ?thesis by (auto simp: st'_def intro: ids_ok_append)
  qed
  have 3: "conn_ok (positions st') c" if "c \<in> set (connections st')" for c
  proof (cases "c \<in> set (connections st)")
    case True
    then show ?thesis using con conn_ok_append by (simp add: st'_def)
  next
    case False
    with that have l: "0 < l" and c: "c = ?new"
      by (auto simp: st'_def split: if_splits)
    from l fl prev(1) have ne: "prev \<noteq> []" by (auto simp: filled_def)
    let ?k = "random_index (rnd (draws st + 2)) (length prev)"
    from rnd ne have k: "?k < length prev"
      by (intro random_index_less) (auto simp: unit_draws_def)
    then have "prev ! ?k \<in> set prev" by simp
    with prev(2) have "prev ! ?k < length ?ps" "layer (?ps ! (prev ! ?k)) = l - 1"
      by (auto simp: ids_ok_def)
    with k l show ?thesis
      by (simp add: c st'_def conn_ok_def js_nth_def cid nth_append)
  qed
  have 4: "filled l st'" using fl by (auto simp: filled_def st'_def)
  have 5: "layerCocoonIds st' l \<noteq> Some []" by (simp add: st'_def)
  from 1 2 3 have "layered_inv (Suc l) st'"
    unfolding layered_inv_def by blast
  with eq 0 4 5 show ?thesis by blast
qed

lemma onion_count_pos: "0 < onion_count t l"
  by (simp add: onion_count_def)

lemma onion_layer_inv:
  assumes rnd: "unit_draws rnd" and inv: "layered_inv l st" and fl: "filled l st"
  shows "\<exists>st'. onion_layer rnd tn t l st = Inr st' \<and> layered_inv (Suc l) st' \<and>
           filled (Suc l) st' \<and>
           positions st' = positions st @ replicate (onion_count t l) \<lparr>layer = l\<rparr>"
proof -
  let ?n = "onion_count t l"
  let ?st1 = "st\<lparr>layerCocoonIds := (layerCocoonIds st)(l \<mapsto> [])\<rparr>"
  define I where "I = (\<lambda>i s. layered_inv (Suc l) s \<and> filled l s \<and>
      (0 < i \<longrightarrow> layerCocoonIds s l \<noteq> Some []) \<and>
      positions s = positions st @ replicate i \<lparr>layer = l\<rparr>)"
  from inv have "layered_inv (Suc l) ?st1"
    by (auto simp: layered_inv_def ids_ok_def less_Suc_eq)
  moreover from fl have "filled l ?st1" by (auto simp: filled_def)
  ultimately have start: "I 0 ?st1" by (simp add: I_def)
  have "\<exists>s'. for_each [0..<?n] (onion_node rnd tn l) ?st1 = Inr s' \<and> I ?n s'"
  proof (rule for_each_upt[where I = I, OF start])
    fix i s assume "I i s"
    then have a: "layered_inv (Suc l) s" "filled l s"
      "positions s = positions st @ replicate i \<lparr>layer = l\<rparr>"
      by (simp_all add: I_def)
    from onion_node_inv[OF rnd a(1,2), of tn i] obtain s' where
      s': "onion_node rnd tn l i s = Inr s'" "layered_inv (Suc l) s'" "filled l s'"
        "layerCocoonIds s' l \<noteq> Some []" "positions s' = positions s @ [\<lparr>layer = l\<rparr>]"
      by blast
    have "I (Suc i) s'"
      using s'(2-5) a(3) by (simp add: I_def replicate_append_same)
    with s'(1) show "\<exists>t'. onion_node rnd tn l i s = Inr t' \<and> I (Suc i) t'" by blast
  qed simp
  then obtain s' where s': "for_each [0..<?n] (onion_node rnd tn l) ?st1 = Inr s'" "I ?n s'"
    by blast
  from s'(2) have b: "layered_inv (Suc l) s'" "filled l s'" "layerCocoonIds s' l \<noteq> Some []"
    "positions s' = positions st @ replicate ?n \<lparr>layer = l\<rparr>"
    using onion_count_pos[of t l] by (simp_all add: I_def)
  from b(2,3) have "filled (Suc l) s'"
    by (auto simp: filled_def less_Suc_eq)
  with s'(1) b show ?thesis unfolding onion_layer_def by blast
qed

lemma generateOnion_run:
  assumes rnd: "unit_draws rnd"
  shows "\<exists>st. generateOnion dm rnd c t = Inr (result st (numLayers c)) \<and>
     layered_inv (numLayers c) st \<and>
     positions st = layer_blocks (onion_count t) (numLayers c)"
proof -
  define I where "I = (\<lambda>L s. layered_inv L s \<and> filled L s \<and>
     positions s = layer_blocks (onion_count t) L)"
  have start: "I 0 init_state"
    by (simp add: I_def layered_inv_def init_state_def layer_blocks_def filled_def)
  have "\<exists>st. for_each [0..<numLayers c] (onion_layer rnd (type_names dm) t) init_state = Inr st \<and>
          I (numLayers c) st"
  proof (rule for_each_upt[where I = I, OF start])
    fix l s assume "I l s"
    then have a: "layered_inv l s" "filled l s" "positions s = layer_blocks (onion_count t) l"
      by (simp_all add: I_def)
    from onion_layer_inv[OF rnd a(1,2), of "type_names dm" t] obtain s' where
      s': "onion_layer rnd (type_names dm) t l s = Inr s'" "layered_inv (Suc l) s'"
        "filled (Suc l) s'"
        "positions s' = positions s @ replicate (onion_count t l) \<lparr>layer = l\<rparr>"
      by blast
    have "I (Suc l) s'" using s'(2-4) a(3) by (simp add: I_def layer_blocks_def)
    with s'(1) show "\<exists>t'. onion_layer rnd (type_names dm) t l s = Inr t' \<and> I (Suc l) t'"
      by blast
  qed simp
  then obtain st where "for_each [0..<numLayers c] (onion_layer rnd (type_names dm) t) init_state = Inr st"
    "I (numLayers c) st" by blast
  then show ?thesis unfolding generateOnion_def I_def by auto
qed

lemma fold_upt_inv:
  assumes "I a s" and "a \<le> b"
    and step: "\<And>i t. a \<le> i \<Longrightarrow> i < b \<Longrightarrow> I i t \<Longrightarrow> I (Suc i) (f i t)"
  shows "I b (fold f [a..<b] s)"
  using assms
proof (induction "b - a" arbitrary: a s)
  case 0
  then show ?case by simp
next
  case (Suc n)
  then have lt: "a < b" by simp
  have "I b (fold f [Suc a..<b] (f a s))"
  proof (rule Suc.hyps(1))
    show "n = b - Suc a" using Suc.hyps(2) by simp
    show "I (Suc a) (f a s)" using Suc.prems(1,3) lt by simp
    show "Suc a \<le> b" using lt by simp
    show "\<And>i t. Suc a \<le> i \<Longrightarrow> i < b \<Longrightarrow> I i t \<Longrightarrow> I (Suc i) (f i t)"
      using Suc.prems(3) by simp
  qed
  then show ?case using lt by (simp add: upt_conv_Cons)
qed

lemma for_each_inv:
  assumes "for_each xs body s = Inr s'" and "I s"
    and step: "\<And>x t t'. x \<in> set xs \<Longrightarrow> I t \<Longrightarrow> body x t = Inr t' \<Longrightarrow> I t'"
  shows "I s'"
  using assms
proof (induction xs arbitrary: s)
  case Nil
  then show ?case by simp
next
  case (Cons x xs)
  from Cons.prems(1) obtain t where t: "body x s = Inr t" "for_each xs body t = Inr s'"
    by (auto split: sum.splits)
  have "I t" using Cons.prems(3)[of x s t] Cons.prems(2) t(1) by simp
  show ?case
    by (rule Cons.IH[OF t(2) \<open>I t\<close>]) (use Cons.prems(3) in auto)
qed

lemma rewire_result:
  assumes "rewire rnd n i d = Some y"
  shows "fst y \<noteq> i \<and> (\<exists>k. fst y = random_index (rnd k) n)"
proof (rule rewire.raw_induct[where P = "\<lambda>rnd n i d y. fst y \<noteq> i \<and> (\<exists>k. fst y = random_index (rnd k) n)",
      OF _ assms])
  fix f :: "(nat \<Rightarrow> real) \<Rightarrow> nat \<Rightarrow> nat \<Rightarrow> nat \<Rightarrow> (nat \<times> nat) option"
  fix rnd n i d y
  assume IH: "\<And>rnd n i d y. f rnd n i d = Some y \<Longrightarrow>
                fst y \<noteq> i \<and> (\<exists>k. fst y = random_index (rnd k) n)"
    and eq: "(let target = random_index (rnd d) n
              in if target = i then f rnd n i (d + 1) else Some (target, d + 1)) = Some y"
  show "fst y \<noteq> i \<and> (\<exists>k. fst y = random_index (rnd k) n)"
  proof (cases "random_index (rnd d) n = i")
    case True
    with eq have "f rnd n i (d + 1) = Some y" by simp
    then show ?thesis by (rule IH)
  next
    case False
    with eq have "y = (random_index (rnd d) n, d + 1)" by auto
    with False show ?thesis by auto
  qed
qed

lemma rewire_first:
  "random_index (rnd d) n \<noteq> i \<Longrightarrow> rewire rnd n i d = Some (random_index (rnd d) n, d + 1)"
  by (subst rewire.simps) (simp add: Let_def)

lemma smallworld_edge_step:
  assumes "smallworld_edge rnd c n i j st = Inr st'"
  shows "positions st' = positions st \<and> types st' = types st \<and>
         (\<exists>e. connections st' = connections st @ [e] \<and> from e = Some i \<and> weight e = 7 / 10 \<and>
              (to e = (i + j) mod n \<or> to e \<noteq> i \<and> (\<exists>k. to e = random_index (rnd k) n)))"
proof (cases "rnd (draws st) < rewireProb c")
  case False
  with assms show ?thesis by (auto simp: smallworld_edge_def)
next
  case True
  with assms obtain t d where r: "rewire rnd n i (draws st + 1) = Some (t, d)"
    and st': "st' = st\<lparr>connections := connections st @ [\<lparr>from = Some i, to = t, weight = 7 / 10\<rparr>],
                      draws := d\<rparr>"
    by (auto simp: smallworld_edge_def split: option.splits)
  from rewire_result[OF r] show ?thesis by (simp add: st')
qed

lemma smallworld_edge_lattice:
  assumes "\<not> rnd (draws st) < rewireProb c"
  shows "smallworld_edge rnd c n i j st =
     Inr (st\<lparr>connections := connections st @
               [\<lparr>from = Some i, to = (i + j) mod n, weight = 7 / 10\<rparr>],
             draws := draws st + 1\<rparr>)"
  using assms by (simp add: smallworld_edge_def)

lemma for_each_pure:
  assumes "\<And>x s. body x s = Inr (g x s)"
  shows "for_each xs body s = Inr (fold g xs s)"
  by (induction xs arbitrary: s) (simp_all add: assms)

lemma fold_append_edges:
  "fold (\<lambda>j (s::rnd_state). s\<lparr>connections := connections s @ e j, draws := draws s + k\<rparr>) js st =
     st\<lparr>connections := connections st @ concat (map e js), draws := draws st + length js * k\<rparr>"
  by (induction js arbitrary: st) simp_all

lemma lattice_inner:
  assumes "\<And>k. \<not> rnd k < rewireProb c"
  shows "for_each js (smallworld_edge rnd c n i) st =
     Inr (st\<lparr>connections := connections st @ map (lattice_edge n i) js,
             draws := draws st + length js\<rparr>)"
proof -
  have "for_each js (smallworld_edge rnd c n i) st =
     Inr (fold (\<lambda>j s. s\<lparr>connections := connections s @ [lattice_edge n i j],
                       draws := draws s + 1\<rparr>) js st)"
    by (rule for_each_pure) (simp add: smallworld_edge_lattice[OF assms] lattice_edge_def)
  then show ?thesis
    using fold_append_edges[where e = "\<lambda>j. [lattice_edge n i j]" and k = 1 and js = js and st = st]
    by simp
qed

lemma lattice_outer:
  assumes "\<And>k. \<not> rnd k < rewireProb c"
  shows "for_each is (\<lambda>i. for_each js (smallworld_edge rnd c n i)) st =
     Inr (st\<lparr>connections := connections st @ concat (map (\<lambda>i. map (lattice_edge n i) js) is),
             draws := draws st + length is * length js\<rparr>)"
proof -
  have "for_each is (\<lambda>i. for_each js (smallworld_edge rnd c n i)) st =
     Inr (fold (\<lambda>i s. s\<lparr>connections := connections s @ map (lattice_edge n i) js,
                       draws := draws s + length js\<rparr>) is st)"
    by (rule for_each_pure) (simp add: lattice_inner[OF assms])
  then show ?thesis by (simp add: fold_append_edges)
qed

lemma smallworld_node_step:
  "\<exists>ty. smallworld_type_ok rnd tn cc i ty \<and>
     positions (smallworld_node rnd tn cc i st) = positions st @ [\<lparr>layer = 0\<rparr>] \<and>
     types (smallworld_node rnd tn cc i st) = types st @ [ty] \<and>
     connections (smallworld_node rnd tn cc i st) = connections st"
  by (auto simp: smallworld_node_def smallworld_type_ok_def Let_def)

lemma smallworld_nodes:
  fixes st0 st1 :: rnd_state
  assumes "st0 = \<lparr>positions = [], connections = [], types = [], draws = 0\<rparr>"
    and st1_def: "st1 = fold (smallworld_node rnd tn cc) [0..<n] st0"
  shows "positions st1 = replicate n \<lparr>layer = 0\<rparr> \<and> connections st1 = [] \<and>
         length (types st1) = n \<and> (\<forall>i<n. smallworld_type_ok rnd tn cc i (types st1 ! i))"
proof -
  define I where "I = (\<lambda>k (s::rnd_state). positions s = replicate k \<lparr>layer = 0\<rparr> \<and> connections s = [] \<and>
         length (types s) = k \<and> (\<forall>i<k. smallworld_type_ok rnd tn cc i (types s ! i)))"
  have "I n (fold (smallworld_node rnd tn cc) [0..<n] st0)"
  proof (rule fold_upt_inv[where I = I])
    show "I 0 st0" by (simp add: I_def assms(1))
    fix i s assume "I i s"
    then have a: "positions s = replicate i \<lparr>layer = 0\<rparr>" "connections s = []" "length (types s) = i"
      "\<And>m. m < i \<Longrightarrow> smallworld_type_ok rnd tn cc m (types s ! m)"
      by (simp_all add: I_def)
    from smallworld_node_step[of rnd tn cc i s] obtain ty where
      ty: "smallworld_type_ok rnd tn cc i ty"
        "positions (smallworld_node rnd tn cc i s) = positions s @ [\<lparr>layer = 0\<rparr>]"
        "types (smallworld_node rnd tn cc i s) = types s @ [ty]"
        "connections (smallworld_node rnd tn cc i s) = connections s"
      by blast
    show "I (Suc i) (smallworld_node rnd tn cc i s)"
      unfolding I_def using a ty
      by (auto simp: replicate_append_same nth_append less_Suc_eq)
  qed simp
  then show ?thesis by (simp add: I_def st1_def)
qed

lemma smallworld_edges_inv:
  fixes st1 :: rnd_state
  assumes run: "for_each [0..<n] (\<lambda>i. for_each js (smallworld_edge rnd c n i)) st1 = Inr st"
    and start: "connections st1 = []"
  shows "positions st = positions st1 \<and> types st = types st1 \<and>
         (\<forall>e\<in>set (connections st). \<exists>i. from e = Some i \<and> i < n \<and> weight e = 7 / 10 \<and>
            (unit_draws rnd \<longrightarrow> to e < n))"
proof -
  define I where "I = (\<lambda>s::rnd_state. positions s = positions st1 \<and> types s = types st1 \<and>
         (\<forall>e\<in>set (connections s). \<exists>i. from e = Some i \<and> i < n \<and> weight e = 7 / 10 \<and>
            (unit_draws rnd \<longrightarrow> to e < n)))"
  have edge: "I t'" if "i < n" "I t" "smallworld_edge rnd c n i j t = Inr t'" for i j t t'
  proof -
    from smallworld_edge_step[OF that(3)] obtain e where
      e: "positions t' = positions t" "types t' = types t" "connections t' = connections t @ [e]"
        "from e = Some i" "weight e = 7 / 10"
        "to e = (i + j) mod n \<or> to e \<noteq> i \<and> (\<exists>k. to e = random_index (rnd k) n)"
      by blast
    have "to e < n" if u: "unit_draws rnd"
    proof -
      from \<open>i < n\<close> have n: "0 < n" by simp
      from u have "random_index (rnd k) n < n" for k
        by (intro random_index_less n) (simp_all add: unit_draws_def)
      with e(6) n show ?thesis by auto
    qed
    moreover from that(2) have "positions t = positions st1" "types t = types st1"
      "\<forall>e\<in>set (connections t). \<exists>i. from e = Some i \<and> i < n \<and> weight e = 7 / 10 \<and>
            (unit_draws rnd \<longrightarrow> to e < n)"
      by (simp_all add: I_def)
    ultimately show ?thesis
      unfolding I_def using e(1-5) that(1) by auto
  qed
  have inner: "I t'" if "i < n" "I t" "for_each js (smallworld_edge rnd c n i) t = Inr t'" for i t t'
    by (rule for_each_inv[where I = I, OF that(3,2)]) (use edge that(1) in blast)
  have "I st1" by (simp add: I_def start)
  have "I st"
  proof (rule for_each_inv[where I = I, OF run \<open>I st1\<close>])
    fix i t t' assume "i \<in> set [0..<n]" "I t" "for_each js (smallworld_edge rnd c n i) t = Inr t'"
    then show "I t'" using inner[of i t t'] by simp
  qed
  then show ?thesis by (simp add: I_def)
qed

lemma result_simps [simp]:
  "positions (result st n) = positions st" "connections (result st n) = connections st"
  "types (result st n) = types st" "layers (result st n) = Some n"
  by (simp_all add: result_def)

lemma generateSmallWorld_unfold:
  fixes st0 :: rnd_state
  assumes "st0 = \<lparr>positions = [], connections = [], types = [], draws = 0\<rparr>"
    and "st1 = fold (smallworld_node rnd (type_names dm) cc) [0..<nat cc] st0"
  shows "generateSmallWorld dm rnd c cc =
    (case for_each [0..<nat cc]
            (\<lambda>i. for_each [1..<Suc (kNeighbors c div 2)] (smallworld_edge rnd c (nat cc) i)) st1 of
       Inl e \<Rightarrow> Inl e | Inr st \<Rightarrow> Inr (result st 1))"
  unfolding generateSmallWorld_def Let_def assms ..

lemma generateSmallWorld_Inr:
  assumes "generateSmallWorld dm rnd c cc = Inr r"
  shows "positions r = replicate (nat cc) \<lparr>layer = 0\<rparr> \<and> length (types r) = nat cc \<and>
    (\<forall>i<nat cc. smallworld_type_ok rnd (type_names dm) cc i (types r ! i)) \<and>
    (\<forall>e\<in>set (connections r). \<exists>i. from e = Some i \<and> i < nat cc \<and> weight e = 7 / 10 \<and>
        (unit_draws rnd \<longrightarrow> to e < nat cc))"
proof -
  define st0 :: rnd_state where "st0 = \<lparr>positions = [], connections = [], types = [], draws = 0\<rparr>"
  define st1 where "st1 = fold (smallworld_node rnd (type_names dm) cc) [0..<nat cc] st0"
  let ?run = "for_each [0..<nat cc]
            (\<lambda>i. for_each [1..<Suc (kNeighbors c div 2)] (smallworld_edge rnd c (nat cc) i)) st1"
  from assms generateSmallWorld_unfold[OF st0_def st1_def, of c]
  have "(case ?run of Inl e \<Rightarrow> Inl e | Inr st \<Rightarrow> Inr (result st 1)) = Inr r" by simp
  then obtain st where run: "?run = Inr st" and r: "r = result st 1"
    by (cases ?run) simp_all
  note n = smallworld_nodes[OF st0_def st1_def]
  from n have "connections st1 = []" by simp
  note e = smallworld_edges_inv[OF run this]
  have "positions r = positions st1" "types r = types st1" "connections r = connections st"
    using e by (simp_all add: r)
  with n e show ?thesis by simp
qed

lemma generateSmallWorld_lattice:
  assumes "\<And>k. \<not> rnd k < rewireProb c"
  shows "\<exists>r. generateSmallWorld dm rnd c cc = Inr r \<and>
    connections r = concat (map (\<lambda>i. map (lattice_edge (nat cc) i) [1..<Suc (kNeighbors c div 2)])
                        [0..<nat cc])"
proof -
  define st0 :: rnd_state where "st0 = \<lparr>positions = [], connections = [], types = [], draws = 0\<rparr>"
  define st1 where "st1 = fold (smallworld_node rnd (type_names dm) cc) [0..<nat cc] st0"
  from smallworld_nodes[OF st0_def st1_def] have "connections st1 = []" by simp
  then show ?thesis
    unfolding generateSmallWorld_unfold[OF st0_def st1_def] lattice_outer[OF assms]
    by simp
qed

lemma sphere_pair_inv:
  assumes "i < j" "j < n" "positions st = ps" "\<forall>c\<in>set (connections st). pair_ok n c"
  shows "positions (sphere_pair distance rnd th i j st) = ps \<and>
         (\<forall>c\<in>set (connections (sphere_pair distance rnd th i j st)). pair_ok n c)"
  using assms by (auto simp: sphere_pair_def pair_ok_def)

lemma random_pair_inv:
  assumes "i < j" "j < n" "positions st = ps" "\<forall>c\<in>set (connections st). pair_ok n c"
  shows "positions (random_pair rnd dens i j st) = ps \<and>
         (\<forall>c\<in>set (connections (random_pair rnd dens i j st)). pair_ok n c)"
  using assms by (auto simp: random_pair_def pair_ok_def)

lemma pairs_inv:
  fixes st :: struct_state
  assumes step: "\<And>i j s. i < j \<Longrightarrow> j < n \<Longrightarrow> positions s = ps \<Longrightarrow>
       \<forall>c\<in>set (connections s). pair_ok n c \<Longrightarrow>
       positions (f i j s) = ps \<and> (\<forall>c\<in>set (connections (f i j s)). pair_ok n c)"
    and start: "positions st = ps" "connections st = []"
  shows "positions (fold (\<lambda>i. fold (f i) [i + 1..<n]) [0..<n] st) = ps \<and>
     (\<forall>c\<in>set (connections (fold (\<lambda>i. fold (f i) [i + 1..<n]) [0..<n] st)). pair_ok n c)"
proof -
  define I where "I = (\<lambda>s::struct_state. positions s = ps \<and> (\<forall>c\<in>set (connections s). pair_ok n c))"
  have one: "I (f i j s)" if "i < j" "j < n" "I s" for i j s
  proof -
    from that(3) have "positions s = ps" "\<forall>c\<in>set (connections s). pair_ok n c"
      by (simp_all add: I_def)
    from step[OF that(1,2) this] show ?thesis by (simp add: I_def)
  qed
  have inner: "I (fold (f i) [i + 1..<n] s)" if "I s" for i s
  proof (cases "i + 1 \<le> n")
    case True
    show ?thesis
    proof (rule fold_upt_inv[where I = "\<lambda>_. I", OF that True])
      fix j t assume "i + 1 \<le> j" "j < n" "I t"
      then show "I (f i j t)" using one[of i j t] by simp
    qed
  next
    case False
    with that show ?thesis by simp
  qed
  have "I st" by (simp add: I_def start)
  then have "I (fold (\<lambda>i. fold (f i) [i + 1..<n]) [0..<n] st)"
  proof (rule fold_upt_inv[where I = "\<lambda>_. I"])
    fix i t assume "I t"
    then show "I (fold (f i) [i + 1..<n] t)" by (rule inner)
  qed simp
  then show ?thesis by (simp add: I_def)
qed

lemma generateSphereSurface_props:
  "positions (generateSphereSurface distance rnd c nc) = map (\<lambda>i. \<lparr>type = node_type nc i\<rparr>) [0..<nat nc] \<and>
   (\<forall>e\<in>set (connections (generateSphereSurface distance rnd c nc)). pair_ok (nat nc) e)"
proof -
  define ps where "ps = map (\<lambda>i. \<lparr>type = node_type nc i\<rparr>) [0..<nat nc]"
  define st :: struct_state where "st = \<lparr>positions = ps, connections = [], sdraws = 0\<rparr>"
  define f where "f = sphere_pair distance rnd (distanceThreshold c)"
  have len: "length ps = nat nc" by (simp add: ps_def)
  have gen: "generateSphereSurface distance rnd c nc =
     \<lparr>positions = positions (fold (\<lambda>i. fold (f i) [i + 1..<nat nc]) [0..<nat nc] st),
      connections = connections (fold (\<lambda>i. fold (f i) [i + 1..<nat nc]) [0..<nat nc] st)\<rparr>"
    unfolding generateSphereSurface_def Let_def ps_def[symmetric] len st_def f_def ..
  have "positions (fold (\<lambda>i. fold (f i) [i + 1..<nat nc]) [0..<nat nc] st) = ps \<and>
     (\<forall>e\<in>set (connections (fold (\<lambda>i. fold (f i) [i + 1..<nat nc]) [0..<nat nc] st)). pair_ok (nat nc) e)"
  proof (rule pairs_inv)
    show "positions st = ps" "connections st = []" by (simp_all add: st_def)
  next
    fix i j and s :: struct_state assume "i < j" "j < nat nc" "positions s = ps"
      "\<forall>c\<in>set (connections s). pair_ok (nat nc) c"
    then show "positions (f i j s) = ps \<and> (\<forall>c\<in>set (connections (f i j s)). pair_ok (nat nc) c)"
      unfolding f_def by (rule sphere_pair_inv)
  qed
  then show ?thesis unfolding gen ps_def by simp
qed

lemma generateRandomGraph_props:
  "positions (generateRandomGraph rnd c nc) = map (\<lambda>i. \<lparr>type = node_type nc i\<rparr>) [0..<nat nc] \<and>
   (\<forall>e\<in>set (connections (generateRandomGraph rnd c nc)). pair_ok (nat nc) e)"
proof -
  define ps where "ps = map (\<lambda>i. \<lparr>type = node_type nc i\<rparr>) [0..<nat nc]"
  define st :: struct_state where "st = \<lparr>positions = ps, connections = [], sdraws = 3 * nat nc\<rparr>"
  define f where "f = random_pair rnd (connectionDensity c)"
  have len: "length ps = nat nc" by (simp add: ps_def)
  have gen: "generateRandomGraph rnd c nc =
     \<lparr>positions = positions (fold (\<lambda>i. fold (f i) [i + 1..<nat nc]) [0..<nat nc] st),
      connections = connections (fold (\<lambda>i. fold (f i) [i + 1..<nat nc]) [0..<nat nc] st)\<rparr>"
    unfolding generateRandomGraph_def Let_def ps_def[symmetric] len st_def f_def ..
  have "positions (fold (\<lambda>i. fold (f i) [i + 1..<nat nc]) [0..<nat nc] st) = ps \<and>
     (\<forall>e\<in>set (connections (fold (\<lambda>i. fold (f i) [i + 1..<nat nc]) [0..<nat nc] st)). pair_ok (nat nc) e)"
  proof (rule pairs_inv)
    show "positions st = ps" "connections st = []" by (simp_all add: st_def)
  next
    fix i j and s :: struct_state assume "i < j" "j < nat nc" "positions s = ps"
      "\<forall>c\<in>set (connections s). pair_ok (nat nc) c"
    then show "positions (f i j s) = ps \<and> (\<forall>c\<in>set (connections (f i j s)). pair_ok (nat nc) c)"
      unfolding f_def by (rule random_pair_inv)
  qed
  then show ?thesis unfolding gen ps_def by simp
qed

lemma onion_node_arrays:
  assumes inv: "arrays_inv (Suc l) st"
  shows "\<exists>st'. onion_node rnd tn l i st = Inr st' \<and> arrays_inv (Suc l) st'"
proof -
  from inv have ty: "length (types st) = length (positions st)"
    and lay: "\<And>k. k < Suc l \<Longrightarrow> layerCocoonIds st k \<noteq> None"
    by (auto simp: arrays_inv_def)
  from lay[of l] obtain ids where ids: "layerCocoonIds st l = Some ids" by auto
  have "l - 1 < Suc l" by simp
  from lay[OF this] obtain prev where prev: "layerCocoonIds st (l - 1) = Some prev" by auto
  show ?thesis
    unfolding onion_node_eq[of st l ids prev, OF ids prev]
    using ty lay by (simp add: arrays_inv_def)
qed

lemma onion_layer_arrays:
  assumes inv: "arrays_inv l st"
  shows "\<exists>st'. onion_layer rnd tn t l st = Inr st' \<and> arrays_inv (Suc l) st'"
proof -
  let ?st1 = "st\<lparr>layerCocoonIds := (layerCocoonIds st)(l \<mapsto> [])\<rparr>"
  from inv have "arrays_inv (Suc l) ?st1"
    by (auto simp: arrays_inv_def less_Suc_eq)
  then show ?thesis
    unfolding onion_layer_def
    by (rule for_each_upt[where I = "\<lambda>_. arrays_inv (Suc l)"]) (simp_all add: onion_node_arrays)
qed

lemma generateOnion_total:
  "\<exists>st::gen_state. generateOnion dm rnd c t = Inr (result st (numLayers c)) \<and>
     length (types st) = length (positions st)"
proof -
  have "arrays_inv 0 init_state" by (simp add: arrays_inv_def init_state_def)
  then have "\<exists>st. for_each [0..<numLayers c] (onion_layer rnd (type_names dm) t) init_state = Inr st \<and>
          arrays_inv (numLayers c) st"
    by (rule for_each_upt[where I = arrays_inv]) (simp_all add: onion_layer_arrays)
  then obtain st where "for_each [0..<numLayers c] (onion_layer rnd (type_names dm) t) init_state = Inr st"
    "arrays_inv (numLayers c) st" by blast
  then have "generateOnion dm rnd c t = Inr (result st (numLayers c))"
    "length (types st) = length (positions st)"
    by (simp_all add: generateOnion_def arrays_inv_def)
  then show ?thesis by blast
qed

lemma funnel_count_Fin:
  assumes "n \<noteq> 1"
  shows "funnel_count n t l =
     Fin (max 1 (of_int \<lfloor>to_double (1 + to_double (to_double (real_of_int (t - 1)) *
                                to_double ((to_double (real l / (real n - 1)))\<^sup>2)))\<rfloor>))"
  using assms by (simp add: funnel_count_def js_div_def)

lemma rounds_funnel_count:
  assumes "n \<noteq> 1"
  shows "int (rounds (funnel_count n t l)) =
     max 1 \<lfloor>to_double (1 + to_double (to_double (real_of_int (t - 1)) *
                          to_double ((to_double (real l / (real n - 1)))\<^sup>2)))\<rfloor>"
    (is "_ = max 1 ?f")
proof -
  have "max 1 (real_of_int ?f) = real_of_int (max 1 ?f)"
    by (simp add: max_def)
  then show ?thesis
    unfolding funnel_count_Fin[OF assms] rounds_def by simp
qed

lemma funnel_count_single: "funnel_count 1 t 0 = NaN"
  by (simp add: funnel_count_def js_div_def)

lemma hourglass_count_single: "numLayers c = 1 \<Longrightarrow> hourglass_count c 0 = NaN"
  by (simp add: hourglass_count_def js_div_def)

lemma layered_inv_empty:
  assumes "layered_inv N st" "positions st = []"
  shows "connections st = []" "types st = []"
proof -
  from assms have "\<forall>c\<in>set (connections st). conn_ok [] c" by (simp add: layered_inv_def)
  then show "connections st = []" by (cases "connections st") (auto simp: conn_ok_def)
  from assms show "types st = []" by (simp add: layered_inv_def)
qed

lemma layer_blocks_1: "layer_blocks sz 1 = replicate (sz 0) \<lparr>layer = 0\<rparr>"
  by (simp add: layer_blocks_def)

lemma length_layer_blocks: "length (layer_blocks sz L) = sum_list (map sz [0..<L])"
  by (induction L) (simp_all add: layer_blocks_def)

lemma funnel_size_of_layer:
  assumes "l < numLayers c"
  shows "\<exists>r. generateFunnel c t = Inr r \<and>
     layer_size r l = rounds (funnel_count (numLayers c) t l) \<and>
     length (positions r) = sum_list (map (\<lambda>l. rounds (funnel_count (numLayers c) t l)) [0..<numLayers c])"
proof -
  from generateFunnel_run[of c t] obtain st :: gen_state where
    f: "generateFunnel c t = Inr (result st (numLayers c))"
      "positions st = layer_blocks (\<lambda>l. rounds (funnel_count (numLayers c) t l)) (numLayers c)"
    by blast
  have "layer_size (result st (numLayers c)) l = rounds (funnel_count (numLayers c) t l)"
    unfolding layer_size_def result_simps f(2) layer_blocks_filter using assms by simp
  moreover have "length (positions (result st (numLayers c))) =
      sum_list (map (\<lambda>l. rounds (funnel_count (numLayers c) t l)) [0..<numLayers c])"
    unfolding result_simps f(2) by (rule length_layer_blocks)
  ultimately show ?thesis using f(1) by blast
qed

lemma funnel_sizes_3_10:
  "rounds (funnel_count 3 10 0) = 1" "rounds (funnel_count 3 10 1) = 3"
  "rounds (funnel_count 3 10 2) = 10"
  by code_simp+

lemma funnel_total_3_10:
  "sum_list (map (\<lambda>l. rounds (funnel_count 3 10 l)) [0..<3]) = 14"
proof -
  have "[0..<3] = [0, 1, 2::nat]" by code_simp
  then show ?thesis by (simp only: list.map sum_list.Cons sum_list.Nil funnel_sizes_3_10)
qed

lemma conn_ok_index_valid: "conn_ok ps e \<Longrightarrow> index_valid (length ps) e"
  by (auto simp: conn_ok_def index_valid_def)

lemma pair_ok_index_valid: "pair_ok n e \<Longrightarrow> index_valid n e"
  by (auto simp: pair_ok_def index_valid_def)

lemma layered_result:
  assumes "layered_inv N st"
  shows "length (types (result st N)) = length (positions (result st N))"
    and "\<forall>e\<in>set (connections (result st N)). conn_ok (positions (result st N)) e"
  using assms by (simp_all add: layered_inv_def)

lemma funnel_links:
  "\<exists>r. generateFunnel c n = Inr r \<and> length (types r) = length (positions r) \<and>
        (\<forall>e\<in>set (connections r). conn_ok (positions r) e)"
proof -
  from generateFunnel_run[of c n] obtain st :: gen_state where
    "generateFunnel c n = Inr (result st (numLayers c))" "layered_inv (numLayers c) st"
    by blast
  with layered_result[of "numLayers c" st] show ?thesis by blast
qed

lemma hourglass_links:
  "\<exists>r. generateHourglass c n = Inr r \<and> length (types r) = length (positions r) \<and>
        (\<forall>e\<in>set (connections r). conn_ok (positions r) e)"
proof -
  from generateHourglass_run[of c n] obtain st :: gen_state where
    "generateHourglass c n = Inr (result st (numLayers c))" "layered_inv (numLayers c) st"
    by blast
  with layered_result[of "numLayers c" st] show ?thesis by blast
qed

lemma onion_links:
  assumes "unit_draws rnd"
  shows "\<exists>r. generateOnion dm rnd c n = Inr r \<and>
        (\<forall>e\<in>set (connections r). conn_ok (positions r) e)"
proof -
  from generateOnion_run[OF assms, of dm c n] obtain st :: gen_state where
    "generateOnion dm rnd c n = Inr (result st (numLayers c))" "layered_inv (numLayers c) st"
    by blast
  with layered_result[of "numLayers c" st] show ?thesis by blast
qed

lemma onion_arrays:
  "\<exists>r. generateOnion dm rnd c n = Inr r \<and> length (types r) = length (positions r)"
proof -
  from generateOnion_total[of dm rnd c n] obtain st :: gen_state where
    "generateOnion dm rnd c n = Inr (result st (numLayers c))"
    "length (types st) = length (positions st)"
    by blast
  then have "generateOnion dm rnd c n = Inr (result st (numLayers c)) \<and>
    length (types (result st (numLayers c))) = length (positions (result st (numLayers c)))"
    by simp
  then show ?thesis ..
qed

lemma smallworld_links:
  assumes "unit_draws rnd" "generateSmallWorld dm rnd c n = Inr r"
  shows "\<forall>e\<in>set (connections r). index_valid (length (positions r)) e"
proof
  fix e assume "e \<in> set (connections r)"
  with generateSmallWorld_Inr[OF assms(2)] assms(1)
  show "index_valid (length (positions r)) e"
    by (auto simp: index_valid_def)
qed

lemma smallworld_arrays:
  assumes "generateSmallWorld dm rnd c n = Inr r"
  shows "length (types r) = length (positions r)"
  using generateSmallWorld_Inr[OF assms] by simp

lemma sphere_links:
  "\<forall>e\<in>set (connections (generateSphereSurface distance rnd s m)).
      index_valid (length (positions (generateSphereSurface distance rnd s m))) e"
  using generateSphereSurface_props[of distance rnd s m] pair_ok_index_valid by auto

lemma random_links:
  "\<forall>e\<in>set (connections (generateRandomGraph rnd s m)).
      index_valid (length (positions (generateRandomGraph rnd s m))) e"
  using generateRandomGraph_props[of rnd s m] pair_ok_index_valid by auto

lemma ball_nth0: "\<forall>e\<in>set xs. P e \<Longrightarrow> xs \<noteq> [] \<Longrightarrow> P (xs ! 0)"
  by (cases xs) auto

lemma projr_eq: "x = Inr r \<Longrightarrow> projr x = r"
  by simp

lemma unit_drawsI: "\<forall>k. 0 \<le> rnd k \<and> rnd k < 1 \<Longrightarrow> unit_draws rnd"
  by (simp add: unit_draws_def)

lemma length_concat_pairs: "length (concat (map (\<lambda>i. [f i, g i]) xs)) = 2 * length xs"
  by (induction xs) simp_all

lemma node_types_16:
  "map (node_type 16) [0..<16] = replicate 8 ''input'' @ replicate 8 ''output''"
  by code_simp

lemma structure_positions:
  "positions (generateSphereSurface distance rnd s n) = map (\<lambda>i. \<lparr>type = node_type n i\<rparr>) [0..<nat n]"
  "positions (generateRandomGraph rnd s n) = map (\<lambda>i. \<lparr>type = node_type n i\<rparr>) [0..<nat n]"
  using generateSphereSurface_props[of distance rnd s n] generateRandomGraph_props[of rnd s n]
  by simp_all

lemma ring_target_differs:
  assumes "i < n" "1 \<le> j" "j < n"
  shows "(i + j) mod n \<noteq> (i::nat)"
proof (cases "i + j < n")
  case True
  with assms show ?thesis by simp
next
  case False
  then have "(i + j) mod n = i + j - n"
    using assms by (simp add: mod_if)
  with assms False show ?thesis by simp
qed

lemma smallworld_edges_no_loop:
  fixes st1 :: rnd_state
  assumes run: "for_each [0..<n] (\<lambda>i. for_each [1..<Suc m] (smallworld_edge rnd c n i)) st1 = Inr st"
    and start: "connections st1 = []" and short: "m < n"
  shows "\<forall>e\<in>set (connections st). from e \<noteq> Some (to e)"
proof -
  define I where "I = (\<lambda>s::rnd_state. \<forall>e\<in>set (connections s). from e \<noteq> Some (to e))"
  have edge: "I t'" if "i < n" "1 \<le> j" "j < n" "I t" "smallworld_edge rnd c n i j t = Inr t'"
    for i j t t'
  proof -
    from smallworld_edge_step[OF that(5)] obtain e where
      e: "connections t' = connections t @ [e]" "from e = Some i"
        "to e = (i + j) mod n \<or> to e \<noteq> i \<and> (\<exists>k. to e = random_index (rnd k) n)"
      by blast
    from e(3) ring_target_differs[OF that(1-3)] have "to e \<noteq> i" by auto
    with e(1,2) that(4) show ?thesis by (auto simp: I_def)
  qed
  have inner: "I t'" if "i < n" "I t" "for_each [1..<Suc m] (smallworld_edge rnd c n i) t = Inr t'"
    for i t t'
  proof (rule for_each_inv[where I = I, OF that(3,2)])
    fix j s s' assume j: "j \<in> set [1..<Suc m]" and "I s" "smallworld_edge rnd c n i j s = Inr s'"
    from j short have "1 \<le> j" "j < n" by auto
    from edge[OF that(1) this \<open>I s\<close> \<open>smallworld_edge rnd c n i j s = Inr s'\<close>]
    show "I s'" .
  qed
  have "I st1" by (simp add: I_def start)
  have "I st"
  proof (rule for_each_inv[where I = I, OF run \<open>I st1\<close>])
    fix i t t' assume "i \<in> set [0..<n]" "I t"
      "for_each [1..<Suc m] (smallworld_edge rnd c n i) t = Inr t'"
    then show "I t'" using inner[of i t t'] by simp
  qed
  then show ?thesis by (simp add: I_def)
qed

lemma smallworld_no_loop:
  assumes "generateSmallWorld dm rnd c cc = Inr r" and "kNeighbors c div 2 < nat cc"
  shows "\<forall>e\<in>set (connections r). from e \<noteq> Some (to e)"
proof -
  define st0 :: rnd_state where "st0 = \<lparr>positions = [], connections = [], types = [], draws = 0\<rparr>"
  define st1 where "st1 = fold (smallworld_node rnd (type_names dm) cc) [0..<nat cc] st0"
  let ?run = "for_each [0..<nat cc]
            (\<lambda>i. for_each [1..<Suc (kNeighbors c div 2)] (smallworld_edge rnd c (nat cc) i)) st1"
  from assms(1) generateSmallWorld_unfold[OF st0_def st1_def, of c]
  have "(case ?run of Inl e \<Rightarrow> Inl e | Inr st \<Rightarrow> Inr (result st 1)) = Inr r" by simp
  then obtain st where run: "?run = Inr st" and r: "r = result st 1"
    by (cases ?run) simp_all
  from smallworld_nodes[OF st0_def st1_def] have "connections st1 = []" by simp
  from smallworld_edges_no_loop[OF run this assms(2)] show ?thesis by (simp add: r)
qed

lemma conn_ok_no_loop: "conn_ok ps e \<Longrightarrow> from e \<noteq> Some (to e)"
  by (auto simp: conn_ok_def)

lemma pair_ok_no_loop: "pair_ok n e \<Longrightarrow> from e \<noteq> Some (to e)"
  by (auto simp: pair_ok_def)

section \<open>The claims\<close>

lemma unit_draws_zero: "\<forall>k. 0 \<le> rnd_zero k \<and> rnd_zero k < 1"
  by (simp add: rnd_zero_def)

subsection \<open>C6: a single layer\<close>

text \<open>
  Claim C6, as amended. For \<open>generateFunnel\<close> and \<open>generateHourglass\<close> called with
  \<open>numLayers = 1\<close> and any \<open>targetCount \<ge> 1\<close>, generation returns a result (it neither
  throws nor loops) and the result has no connections.
\<close>

theorem single_layer_no_connections:
  assumes "numLayers c = 1" and "1 \<le> targetCount"
  shows "(\<exists>r. generateFunnel c targetCount = Inr r \<and> connections r = []) \<and>
         (\<exists>r. generateHourglass c targetCount = Inr r \<and> connections r = [])"
proof -
  from generateFunnel_run[of c targetCount] obtain st where
    f: "generateFunnel c targetCount = Inr (result st (numLayers c))" "layered_inv (numLayers c) st"
      "positions st = layer_blocks (\<lambda>l. rounds (funnel_count (numLayers c) targetCount l)) (numLayers c)"
    by blast
  have "rounds (funnel_count 1 targetCount 0) = 0"
    unfolding funnel_count_single rounds_def by simp
  with f(3) have "positions st = []"
    unfolding assms(1) layer_blocks_1 by simp
  from layered_inv_empty(1)[OF f(2) this] f(1)
  have 1: "\<exists>r. generateFunnel c targetCount = Inr r \<and> connections r = []"
    by simp
  from generateHourglass_run[of c targetCount] obtain st' where
    h: "generateHourglass c targetCount = Inr (result st' (numLayers c))" "layered_inv (numLayers c) st'"
      "positions st' = layer_blocks (\<lambda>l. rounds (hourglass_count c l)) (numLayers c)"
    by blast
  have "rounds (hourglass_count c 0) = 0"
    unfolding hourglass_count_single[OF assms(1)] rounds_def by simp
  with h(3) have "positions st' = []"
    unfolding assms(1) layer_blocks_1 by simp
  from layered_inv_empty(1)[OF h(2) this] h(1)
  have 2: "\<exists>r. generateHourglass c targetCount = Inr r \<and> connections r = []"
    by simp
  from 1 2 show ?thesis ..
qed

text \<open>The amended claim at \<open>single_layer\<close> and \<open>targetCount = 5\<close>.\<close>

theorem single_layer_no_connections_witness:
  "numLayers single_layer = 1 \<and> (1::int) \<le> 5 \<and>
   connections (projr (generateFunnel single_layer 5)) = [] \<and>
   connections (projr (generateHourglass single_layer 5)) = []"
proof -
  have n: "numLayers single_layer = 1" by (simp add: single_layer_def)
  have t: "(1::int) \<le> 5" by simp
  from single_layer_no_connections[OF n t] n show ?thesis by auto
qed

text \<open>
  Claim C6 as stated asks for exactly \<open>targetCount\<close> nodes in the single layer. With one
  layer \<open>ratio\<close> is \<open>0 / 0\<close>, so \<open>count\<close> is \<open>NaN\<close> and the loop over \<open>i\<close> never runs:
  with \<open>targetCount = 5\<close> neither generator produces five nodes.
\<close>

theorem single_layer_counterexample:
  "length (positions (projr (generateFunnel single_layer 5))) \<noteq> 5 \<and>
   length (positions (projr (generateHourglass single_layer 5))) \<noteq> 5"
  by code_simp

subsection \<open>C4: the sizes of the funnel's layers\<close>

text \<open>
  Claim C4, as amended. With \<open>numLayers = 3\<close> and \<open>targetCount = 10\<close> the funnel has 1 node in
  layer 0, 3 in layer 1 and 10 in layer 2, so 14 positions: the total is not clamped to
  \<open>targetCount\<close>. In general, with at least two layers, the number of nodes of layer \<open>l\<close> is
  \<open>max(1, floor(1 + (targetCount - 1) * (l / (numLayers - 1))^2))\<close> as double arithmetic
  evaluates it: the difference, the quotient, the square, the product and the sum are each
  rounded to the nearest double.
\<close>

theorem funnel_layer_sizes:
  "(numLayers c = 3 \<longrightarrow>
      (\<exists>r. generateFunnel c 10 = Inr r \<and> layer_size r 0 = 1 \<and> layer_size r 1 = 3 \<and>
           layer_size r 2 = 10 \<and> length (positions r) = 14)) \<and>
   (2 \<le> numLayers c \<and> l < numLayers c \<longrightarrow>
      (\<exists>r. generateFunnel c targetCount = Inr r \<and>
           int (layer_size r l) =
             max 1 \<lfloor>to_double (1 + to_double (to_double (real_of_int (targetCount - 1)) *
                to_double ((to_double (real l / (real (numLayers c) - 1)))\<^sup>2)))\<rfloor>))"
proof (intro conjI impI)
  assume n: "numLayers c = 3"
  from generateFunnel_run[of c 10] obtain st :: gen_state where
    f: "generateFunnel c 10 = Inr (result st (numLayers c))"
      "positions st = layer_blocks (\<lambda>l. rounds (funnel_count (numLayers c) 10 l)) (numLayers c)"
    by blast
  have sz: "layer_size (result st (numLayers c)) l = rounds (funnel_count 3 10 l)" if "l < 3" for l
    unfolding layer_size_def result_simps f(2) layer_blocks_filter n using that by simp
  have "length (positions (result st (numLayers c))) = 14"
    unfolding result_simps f(2) length_layer_blocks n by (rule funnel_total_3_10)
  moreover have l: "(0::nat) < 3" "(1::nat) < 3" "(2::nat) < 3" by simp_all
  have "layer_size (result st (numLayers c)) 0 = 1"
    "layer_size (result st (numLayers c)) 1 = 3" "layer_size (result st (numLayers c)) 2 = 10"
    by (simp_all only: sz[OF l(1)] sz[OF l(2)] sz[OF l(3)] funnel_sizes_3_10)
  ultimately show "\<exists>r. generateFunnel c 10 = Inr r \<and> layer_size r 0 = 1 \<and> layer_size r 1 = 3 \<and>
           layer_size r 2 = 10 \<and> length (positions r) = 14"
    using f(1) by blast
next
  assume a: "2 \<le> numLayers c \<and> l < numLayers c"
  then have "numLayers c \<noteq> 1" by simp
  from funnel_size_of_layer[of l c targetCount] a rounds_funnel_count[OF this, of targetCount l]
  show "\<exists>r. generateFunnel c targetCount = Inr r \<and>
           int (layer_size r l) =
             max 1 \<lfloor>to_double (1 + to_double (to_double (real_of_int (targetCount - 1)) *
                to_double ((to_double (real l / (real (numLayers c) - 1)))\<^sup>2)))\<rfloor>"
    by auto
qed

text \<open>The amended claim at \<open>example_topology\<close>, layer 1 and \<open>targetCount = 10\<close>.\<close>

theorem funnel_layer_sizes_witness:
  "numLayers example_topology = 3 \<and> 2 \<le> numLayers example_topology \<and>
   1 < numLayers example_topology \<and>
   layer_size (projr (generateFunnel example_topology 10)) 0 = 1 \<and>
   layer_size (projr (generateFunnel example_topology 10)) 1 = 3 \<and>
   layer_size (projr (generateFunnel example_topology 10)) 2 = 10 \<and>
   length (positions (projr (generateFunnel example_topology 10))) = 14 \<and>
   int (layer_size (projr (generateFunnel example_topology 10)) 1) =
     max 1 \<lfloor>to_double (1 + to_double (to_double (real_of_int (10 - 1)) *
        to_double ((to_double (real 1 / (real 3 - 1)))\<^sup>2)))\<rfloor>"
proof -
  have n: "numLayers example_topology = 3" by (simp add: example_topology_def)
  from funnel_layer_sizes[of example_topology 1 10] n
  obtain r r' where "generateFunnel example_topology 10 = Inr r" "layer_size r 0 = 1"
    "layer_size r 1 = 3" "layer_size r 2 = 10" "length (positions r) = 14"
    "generateFunnel example_topology 10 = Inr r'"
    "int (layer_size r' 1) =
     max 1 \<lfloor>to_double (1 + to_double (to_double (real_of_int (10 - 1)) *
        to_double ((to_double (real 1 / (real 3 - 1)))\<^sup>2)))\<rfloor>"
    by auto
  with n show ?thesis by auto
qed

text \<open>
  Claim C4 as stated gives the formula without rounding. With 11 layers and
  \<open>targetCount = 101\<close> the formula is \<open>floor(1 + 100 * 0.49) = 50\<close> at layer 7, but the double
  \<open>0.7 ** 2\<close> is \<open>0.48999999999999994\<close>, the sum is just below 50, and layer 7 has 49 nodes.
\<close>

theorem exact_formula_counterexample:
  "numLayers eleven_layers = 11 \<and>
   max 1 \<lfloor>1 + real_of_int (101 - 1) * (real 7 / (real 11 - 1))\<^sup>2\<rfloor> = (50::int) \<and>
   layer_size (projr (generateFunnel eleven_layers 101)) 7 = 49"
proof -
  have n: "numLayers eleven_layers = 11" by (simp add: eleven_layers_def example_topology_def)
  have e: "max 1 \<lfloor>1 + real_of_int (101 - 1) * (real 7 / (real 11 - 1))\<^sup>2\<rfloor> = (50::int)"
    by code_simp
  have c: "rounds (funnel_count 11 101 7) = 49" by code_simp
  from funnel_size_of_layer[of 7 eleven_layers 101] n obtain r where
    "generateFunnel eleven_layers 101 = Inr r" "layer_size r 7 = rounds (funnel_count 11 101 7)"
    by auto
  with c have "layer_size (projr (generateFunnel eleven_layers 101)) 7 = 49" by simp
  with n e show ?thesis by (intro conjI)
qed

subsection \<open>C3: one type for each position\<close>

text \<open>
  Claim C3. For each of the four topology generators the result has as many types as
  positions. The funnel, the onion and the hourglass return for every config, count and
  random source; the small-world generator can loop for ever while rewiring, so its part is
  about the results it returns.
\<close>

theorem parallel_arrays:
  "(\<exists>r. generateFunnel c n = Inr r \<and> length (types r) = length (positions r)) \<and>
   (\<exists>r. generateOnion dm rnd c n = Inr r \<and> length (types r) = length (positions r)) \<and>
   (\<forall>r. generateSmallWorld dm rnd c n = Inr r \<longrightarrow> length (types r) = length (positions r)) \<and>
   (\<exists>r. generateHourglass c n = Inr r \<and> length (types r) = length (positions r))"
  using funnel_links[of c n] onion_arrays[of dm rnd c n] hourglass_links[of c n]
    smallworld_arrays[of dm rnd c n]
  by blast

text \<open>The claim at a small-world run of five nodes and a funnel run, which return.\<close>

theorem parallel_arrays_witness:
  "\<not> isl (generateSmallWorld example_dm rnd_zero example_topology 5) \<and>
   length (positions (projr (generateSmallWorld example_dm rnd_zero example_topology 5))) = 5 \<and>
   length (types (projr (generateSmallWorld example_dm rnd_zero example_topology 5))) =
     length (positions (projr (generateSmallWorld example_dm rnd_zero example_topology 5))) \<and>
   length (types (projr (generateFunnel example_topology 5))) =
     length (positions (projr (generateFunnel example_topology 5)))"
proof -
  let ?g = "generateSmallWorld example_dm rnd_zero example_topology 5"
  have 1: "\<not> isl ?g" "length (positions (projr ?g)) = 5" by code_simp+
  then have "?g = Inr (projr ?g)" by simp
  with parallel_arrays[of example_topology 5 example_dm rnd_zero]
  have 2: "length (types (projr ?g)) = length (positions (projr ?g))" by blast
  from parallel_arrays[of example_topology 5 example_dm rnd_zero]
  obtain r where "generateFunnel example_topology 5 = Inr r" "length (types r) = length (positions r)"
    by blast
  then have "length (types (projr (generateFunnel example_topology 5))) =
     length (positions (projr (generateFunnel example_topology 5)))" by simp
  with 1 2 show ?thesis by blast
qed

subsection \<open>C1: connections index into the positions\<close>

text \<open>
  Claim C1. With a random source that draws from \<open>[0, 1)\<close>, as \<open>Math.random()\<close> does, every
  connection a generator returns has a defined \<open>from\<close>, and \<open>from\<close> and \<open>to\<close> are below
  \<open>positions.length\<close> (they are natural numbers, so not negative). This holds for the
  funnel, the onion, the small-world generator (for each result it returns), the hourglass,
  the sphere surface and the random graph.
\<close>

theorem index_validity:
  assumes "\<forall>k. 0 \<le> rnd k \<and> rnd k < 1"
  shows
   "(\<exists>r. generateFunnel c n = Inr r \<and>
        (\<forall>e\<in>set (connections r). index_valid (length (positions r)) e)) \<and>
    (\<exists>r. generateOnion dm rnd c n = Inr r \<and>
        (\<forall>e\<in>set (connections r). index_valid (length (positions r)) e)) \<and>
    (\<forall>r. generateSmallWorld dm rnd c n = Inr r \<longrightarrow>
        (\<forall>e\<in>set (connections r). index_valid (length (positions r)) e)) \<and>
    (\<exists>r. generateHourglass c n = Inr r \<and>
        (\<forall>e\<in>set (connections r). index_valid (length (positions r)) e)) \<and>
    (\<forall>e\<in>set (connections (generateSphereSurface distance rnd s m)).
        index_valid (length (positions (generateSphereSurface distance rnd s m))) e) \<and>
    (\<forall>e\<in>set (connections (generateRandomGraph rnd s m)).
        index_valid (length (positions (generateRandomGraph rnd s m))) e)"
proof -
  note u = unit_drawsI[OF assms]
  have 1: "\<exists>r. generateFunnel c n = Inr r \<and>
        (\<forall>e\<in>set (connections r). index_valid (length (positions r)) e)"
    using funnel_links[of c n] conn_ok_index_valid by blast
  have 2: "\<exists>r. generateOnion dm rnd c n = Inr r \<and>
        (\<forall>e\<in>set (connections r). index_valid (length (positions r)) e)"
    using onion_links[OF u, of dm c n] conn_ok_index_valid by blast
  have 3: "\<forall>r. generateSmallWorld dm rnd c n = Inr r \<longrightarrow>
        (\<forall>e\<in>set (connections r). index_valid (length (positions r)) e)"
    using smallworld_links[OF u] by blast
  have 4: "\<exists>r. generateHourglass c n = Inr r \<and>
        (\<forall>e\<in>set (connections r). index_valid (length (positions r)) e)"
    using hourglass_links[of c n] conn_ok_index_valid by blast
  from 1 2 3 4 sphere_links[of distance rnd s m] random_links[of rnd s m]
  show ?thesis by (intro conjI)
qed

text \<open>The claim at one run of each generator that produces connections, with every draw 0.\<close>

theorem index_validity_witness:
  "(\<forall>k. 0 \<le> rnd_zero k \<and> rnd_zero k < 1) \<and>
   connections (projr (generateFunnel example_topology 3)) \<noteq> [] \<and>
   index_valid (length (positions (projr (generateFunnel example_topology 3))))
     (connections (projr (generateFunnel example_topology 3)) ! 0) \<and>
   connections (projr (generateOnion example_dm rnd_zero example_topology 10)) \<noteq> [] \<and>
   index_valid (length (positions (projr (generateOnion example_dm rnd_zero example_topology 10))))
     (connections (projr (generateOnion example_dm rnd_zero example_topology 10)) ! 0) \<and>
   connections (projr (generateSmallWorld example_dm rnd_zero example_topology 5)) \<noteq> [] \<and>
   index_valid (length (positions (projr (generateSmallWorld example_dm rnd_zero example_topology 5))))
     (connections (projr (generateSmallWorld example_dm rnd_zero example_topology 5)) ! 0) \<and>
   connections (projr (generateHourglass example_topology 3)) \<noteq> [] \<and>
   index_valid (length (positions (projr (generateHourglass example_topology 3))))
     (connections (projr (generateHourglass example_topology 3)) ! 0) \<and>
   connections (generateSphereSurface all_near rnd_zero example_structure 3) \<noteq> [] \<and>
   index_valid (length (positions (generateSphereSurface all_near rnd_zero example_structure 3)))
     (connections (generateSphereSurface all_near rnd_zero example_structure 3) ! 0) \<and>
   connections (generateRandomGraph rnd_zero example_structure 3) \<noteq> [] \<and>
   index_valid (length (positions (generateRandomGraph rnd_zero example_structure 3)))
     (connections (generateRandomGraph rnd_zero example_structure 3) ! 0)"
proof -
  let ?f = "generateFunnel example_topology 3"
  let ?o = "generateOnion example_dm rnd_zero example_topology 10"
  let ?w = "generateSmallWorld example_dm rnd_zero example_topology 5"
  let ?h = "generateHourglass example_topology 3"
  let ?s = "generateSphereSurface all_near rnd_zero example_structure 3"
  let ?g = "generateRandomGraph rnd_zero example_structure 3"
  note t = index_validity[OF unit_draws_zero, of example_topology _ example_dm all_near
      example_structure 3]
  have ne: "connections (projr ?f) \<noteq> []" "connections (projr ?o) \<noteq> []"
    "connections (projr ?w) \<noteq> []" "connections (projr ?h) \<noteq> []"
    "connections ?s \<noteq> []" "connections ?g \<noteq> []"
    by code_simp+
  have w: "\<not> isl ?w" by code_simp
  from t[of 3] obtain r where "?f = Inr r"
    "\<forall>e\<in>set (connections r). index_valid (length (positions r)) e" by blast
  then have 1: "\<forall>e\<in>set (connections (projr ?f)). index_valid (length (positions (projr ?f))) e"
    by simp
  from t[of 10] obtain r where "?o = Inr r"
    "\<forall>e\<in>set (connections r). index_valid (length (positions r)) e" by blast
  then have 2: "\<forall>e\<in>set (connections (projr ?o)). index_valid (length (positions (projr ?o))) e"
    by simp
  from w have "?w = Inr (projr ?w)" by simp
  with t[of 5]
  have 3: "\<forall>e\<in>set (connections (projr ?w)). index_valid (length (positions (projr ?w))) e"
    by blast
  from t[of 3] obtain r where "?h = Inr r"
    "\<forall>e\<in>set (connections r). index_valid (length (positions r)) e" by blast
  then have 4: "\<forall>e\<in>set (connections (projr ?h)). index_valid (length (positions (projr ?h))) e"
    by simp
  from t[of 3] have 5: "\<forall>e\<in>set (connections ?s). index_valid (length (positions ?s)) e"
    and 6: "\<forall>e\<in>set (connections ?g). index_valid (length (positions ?g)) e"
    by blast+
  show ?thesis
    using unit_draws_zero ne ball_nth0[OF 1 ne(1)] ball_nth0[OF 2 ne(2)] ball_nth0[OF 3 ne(3)]
      ball_nth0[OF 4 ne(4)] ball_nth0[OF 5 ne(5)] ball_nth0[OF 6 ne(6)]
    by (intro conjI)
qed

subsection \<open>C10: connections of the layered generators go up one layer\<close>

text \<open>
  Claim C10. In the results of the funnel, the hourglass and the onion every connection
  leads from a node of some layer to a node of the next layer:
  \<open>positions[from].layer + 1 = positions[to].layer\<close>, for every config, count and random
  source drawing from \<open>[0, 1)\<close>.
\<close>

theorem adjacent_layers:
  assumes "\<forall>k. 0 \<le> rnd k \<and> rnd k < 1"
  shows
   "(\<exists>r. generateFunnel c n = Inr r \<and>
        (\<forall>e\<in>set (connections r). \<exists>f. from e = Some f \<and> f < length (positions r) \<and>
            to e < length (positions r) \<and>
            layer (positions r ! f) + 1 = layer (positions r ! to e))) \<and>
    (\<exists>r. generateHourglass c n = Inr r \<and>
        (\<forall>e\<in>set (connections r). \<exists>f. from e = Some f \<and> f < length (positions r) \<and>
            to e < length (positions r) \<and>
            layer (positions r ! f) + 1 = layer (positions r ! to e))) \<and>
    (\<exists>r. generateOnion dm rnd c n = Inr r \<and>
        (\<forall>e\<in>set (connections r). \<exists>f. from e = Some f \<and> f < length (positions r) \<and>
            to e < length (positions r) \<and>
            layer (positions r ! f) + 1 = layer (positions r ! to e)))"
  using funnel_links[of c n] hourglass_links[of c n] onion_links[OF unit_drawsI[OF assms], of dm c n]
  unfolding conn_ok_def by blast

text \<open>The claim at one run of each of the three generators, with every draw 0.\<close>

theorem adjacent_layers_witness:
  "(\<forall>k. 0 \<le> rnd_zero k \<and> rnd_zero k < 1) \<and>
   connections (projr (generateFunnel example_topology 3)) \<noteq> [] \<and>
   conn_ok (positions (projr (generateFunnel example_topology 3)))
     (connections (projr (generateFunnel example_topology 3)) ! 0) \<and>
   connections (projr (generateHourglass example_topology 3)) \<noteq> [] \<and>
   conn_ok (positions (projr (generateHourglass example_topology 3)))
     (connections (projr (generateHourglass example_topology 3)) ! 0) \<and>
   connections (projr (generateOnion example_dm rnd_zero example_topology 10)) \<noteq> [] \<and>
   conn_ok (positions (projr (generateOnion example_dm rnd_zero example_topology 10)))
     (connections (projr (generateOnion example_dm rnd_zero example_topology 10)) ! 0)"
proof -
  let ?f = "generateFunnel example_topology 3"
  let ?o = "generateOnion example_dm rnd_zero example_topology 10"
  let ?h = "generateHourglass example_topology 3"
  note t = adjacent_layers[OF unit_draws_zero, of example_topology _ example_dm,
      folded conn_ok_def]
  have ne: "connections (projr ?f) \<noteq> []" "connections (projr ?h) \<noteq> []"
    "connections (projr ?o) \<noteq> []"
    by code_simp+
  from t[of 3] obtain r where "?f = Inr r"
    "\<forall>e\<in>set (connections r). conn_ok (positions r) e" by blast
  then have 1: "\<forall>e\<in>set (connections (projr ?f)). conn_ok (positions (projr ?f)) e"
    by simp
  from t[of 3] obtain r where "?h = Inr r"
    "\<forall>e\<in>set (connections r). conn_ok (positions r) e" by blast
  then have 2: "\<forall>e\<in>set (connections (projr ?h)). conn_ok (positions (projr ?h)) e"
    by simp
  from t[of 10] obtain r where "?o = Inr r"
    "\<forall>e\<in>set (connections r). conn_ok (positions r) e" by blast
  then have 3: "\<forall>e\<in>set (connections (projr ?o)). conn_ok (positions (projr ?o)) e"
    by simp
  show ?thesis
    using unit_draws_zero ne ball_nth0[OF 1 ne(1)] ball_nth0[OF 2 ne(2)] ball_nth0[OF 3 ne(3)]
    by (intro conjI)
qed

subsection \<open>C5: the ring lattice without rewiring\<close>

text \<open>
  Claim C5. With \<open>cocoonCount = 20\<close>, \<open>kNeighbors = 4\<close> and \<open>rewireProb = 0\<close> the small-world
  generator returns, whatever the random source draws (no draw is negative): there are
  exactly 40 connections, each of weight 0.7, and they are, node by node, the edges from
  \<open>i\<close> to \<open>(i + 1) mod 20\<close> and to \<open>(i + 2) mod 20\<close>.
\<close>

theorem ring_lattice:
  assumes "\<forall>k. 0 \<le> rnd k" and "kNeighbors c = 4" and "rewireProb c = 0"
  shows "\<exists>r. generateSmallWorld dm rnd c 20 = Inr r \<and>
     length (connections r) = 40 \<and>
     (\<forall>e\<in>set (connections r). weight e = 7 / 10) \<and>
     connections r =
       concat (map (\<lambda>i. [\<lparr>from = Some i, to = (i + 1) mod 20, weight = 7 / 10\<rparr>,
                         \<lparr>from = Some i, to = (i + 2) mod 20, weight = 7 / 10\<rparr>]) [0..<20])"
proof -
  have no: "\<not> rnd k < rewireProb c" for k using assms(1,3) by (simp add: not_less)
  have js: "[1..<Suc (kNeighbors c div 2)] = [1, 2]"
    unfolding assms(2) by (simp add: upt_rec)
  from generateSmallWorld_lattice[of rnd c dm 20, OF no] obtain r where
    r: "generateSmallWorld dm rnd c 20 = Inr r"
      "connections r = concat (map (\<lambda>i. map (lattice_edge (nat 20) i) [1..<Suc (kNeighbors c div 2)])
                        [0..<nat 20])"
    by blast
  have c: "connections r =
       concat (map (\<lambda>i. [\<lparr>from = Some i, to = (i + 1) mod 20, weight = 7 / 10\<rparr>,
                         \<lparr>from = Some i, to = (i + 2) mod 20, weight = 7 / 10\<rparr>]) [0..<20])"
    unfolding r(2) js by (simp add: lattice_edge_def)
  have l: "length (connections r) = 40"
    unfolding c length_concat_pairs by simp
  have w: "\<forall>e\<in>set (connections r). weight e = 7 / 10"
    unfolding c by auto
  from r(1) l w c show ?thesis by blast
qed

text \<open>The claim with every draw 0; the last connection leads from node 19 to node 1.\<close>

theorem ring_lattice_witness:
  "(\<forall>k. 0 \<le> rnd_zero k) \<and> kNeighbors example_topology = 4 \<and> rewireProb example_topology = 0 \<and>
   length (connections (projr (generateSmallWorld example_dm rnd_zero example_topology 20))) = 40 \<and>
   connections (projr (generateSmallWorld example_dm rnd_zero example_topology 20)) ! 39 =
     \<lparr>from = Some 19, to = 1, weight = 7 / 10\<rparr>"
proof -
  have a: "\<forall>k. 0 \<le> rnd_zero k" "kNeighbors example_topology = 4" "rewireProb example_topology = 0"
    by (simp_all add: rnd_zero_def example_topology_def)
  from ring_lattice[OF a, of example_dm] obtain r where
    r: "generateSmallWorld example_dm rnd_zero example_topology 20 = Inr r"
      "length (connections r) = 40"
      "connections r =
       concat (map (\<lambda>i. [\<lparr>from = Some i, to = (i + 1) mod 20, weight = 7 / 10\<rparr>,
                         \<lparr>from = Some i, to = (i + 2) mod 20, weight = 7 / 10\<rparr>]) [0..<20])"
    by blast
  have "concat (map (\<lambda>i. [\<lparr>from = Some i, to = (i + 1) mod 20, weight = 7 / 10\<rparr>,
                         \<lparr>from = Some i, to = (i + 2) mod 20, weight = 7 / 10\<rparr>]) [0..<20]) ! 39 =
     \<lparr>from = Some 19, to = 1, weight = 7 / 10 :: real\<rparr>"
    by code_simp
  with r a show ?thesis by simp
qed

subsection \<open>C7: the node types of the structure generators\<close>

text \<open>
  Claim C7, as amended. In the results of \<open>generateSphereSurface\<close> and
  \<open>generateRandomGraph\<close> node \<open>i\<close> is tagged \<open>input\<close> exactly when \<open>i < 8\<close>, \<open>output\<close>
  exactly when \<open>i \<ge> 8\<close> and \<open>i \<ge> nodeCount - 8\<close>, and \<open>internal\<close> otherwise: the test for
  \<open>input\<close> comes first in the conditional, so below 16 nodes the nodes that are both among
  the first 8 and among the last 8 are tagged \<open>input\<close>. With 16 nodes, nodes 0 to 7 are
  \<open>input\<close>, nodes 8 to 15 are \<open>output\<close> and none is \<open>internal\<close>.
\<close>

theorem structure_node_types:
  "length (positions (generateSphereSurface distance rnd s n)) = nat n \<and>
   length (positions (generateRandomGraph rnd s n)) = nat n \<and>
   (\<forall>i<nat n.
      type (positions (generateSphereSurface distance rnd s n) ! i) =
        (if i < 8 then ''input'' else if n - 8 \<le> int i then ''output'' else ''internal'') \<and>
      type (positions (generateRandomGraph rnd s n) ! i) =
        (if i < 8 then ''input'' else if n - 8 \<le> int i then ''output'' else ''internal'')) \<and>
   map type (positions (generateSphereSurface distance rnd s 16)) =
     replicate 8 ''input'' @ replicate 8 ''output'' \<and>
   map type (positions (generateRandomGraph rnd s 16)) =
     replicate 8 ''input'' @ replicate 8 ''output''"
proof -
  have "map type (map (\<lambda>i. \<lparr>type = node_type 16 i\<rparr>) [0..<nat 16]) = map (node_type 16) [0..<16]"
    by (simp add: comp_def)
  then have "map type (map (\<lambda>i. \<lparr>type = node_type 16 i\<rparr>) [0..<nat 16]) =
      replicate 8 ''input'' @ replicate 8 ''output''"
    unfolding node_types_16 .
  then show ?thesis
    unfolding structure_positions by (simp add: node_type_def)
qed

text \<open>The amended claim at node 5 of 10 and at nodes 9 and 15 of 20.\<close>

theorem structure_node_types_witness:
  "(5::nat) < nat 10 \<and> (9::nat) < nat 20 \<and> (15::nat) < nat 20 \<and>
   type (positions (generateSphereSurface all_near rnd_zero example_structure 10) ! 5) = ''input'' \<and>
   type (positions (generateRandomGraph rnd_zero example_structure 10) ! 5) = ''input'' \<and>
   type (positions (generateSphereSurface all_near rnd_zero example_structure 20) ! 9) = ''internal'' \<and>
   type (positions (generateRandomGraph rnd_zero example_structure 20) ! 15) = ''output''"
proof -
  have a: "(5::nat) < nat 10" "(9::nat) < nat 20" "(15::nat) < nat 20" by simp_all
  from structure_node_types[of all_near rnd_zero example_structure 10] a(1)
  have 1: "type (positions (generateSphereSurface all_near rnd_zero example_structure 10) ! 5) = ''input''"
    "type (positions (generateRandomGraph rnd_zero example_structure 10) ! 5) = ''input''"
    by auto
  from structure_node_types[of all_near rnd_zero example_structure 20] a(2,3)
  have 2: "type (positions (generateSphereSurface all_near rnd_zero example_structure 20) ! 9) = ''internal''"
    "type (positions (generateRandomGraph rnd_zero example_structure 20) ! 15) = ''output''"
    by auto
  from a 1 2 show ?thesis by (intro conjI)
qed

text \<open>
  Claim C7 as stated has the overlapping nodes tagged \<open>output\<close>. Of 10 nodes, node 5 is among
  the last 8 (\<open>10 - 8 \<le> 5\<close>) and among the first 8; neither generator tags it \<open>output\<close>.
\<close>

theorem overlap_counterexample:
  "(10::int) - 8 \<le> 5 \<and> (5::int) < 10 \<and>
   type (positions (generateSphereSurface all_near rnd_zero example_structure 10) ! 5) \<noteq> ''output'' \<and>
   type (positions (generateRandomGraph rnd_zero example_structure 10) ! 5) \<noteq> ''output''"
  by code_simp

subsection \<open>C8: the types of the small-world generator\<close>

text \<open>
  Claim C8, as amended. In a result of the small-world generator there is one type for each
  of the \<open>cocoonCount\<close> nodes; node \<open>i\<close> is \<open>sensor\<close> when \<open>i < cocoonCount * 0.1\<close>, else
  \<open>processor\<close> when \<open>i > cocoonCount * 0.9\<close>, and else \<open>typeNames[floor(r * 4)]\<close> for a
  draw \<open>r\<close> of the random source. The comparisons are on exact numbers.
\<close>

theorem smallworld_types:
  assumes "generateSmallWorld dm rnd c n = Inr r" and "i < nat n"
  shows "length (types r) = nat n \<and>
    (if real i < real_of_int n * (1 / 10) then types r ! i = Some ''sensor''
     else if real i > real_of_int n * (9 / 10) then types r ! i = Some ''processor''
     else \<exists>d. types r ! i = js_nth (type_names dm) (random_index (rnd d) 4))"
  using generateSmallWorld_Inr[OF assms(1)] assms(2)
  unfolding smallworld_type_ok_def by blast

text \<open>The amended claim at 20 nodes, with every draw 0: node 1 is a sensor, node 19 a
  processor, and node 18 is drawn.\<close>

theorem smallworld_types_witness:
  "\<not> isl (generateSmallWorld example_dm rnd_zero example_topology 20) \<and>
   (1::nat) < nat 20 \<and> (19::nat) < nat 20 \<and> (18::nat) < nat 20 \<and>
   length (types (projr (generateSmallWorld example_dm rnd_zero example_topology 20))) = 20 \<and>
   types (projr (generateSmallWorld example_dm rnd_zero example_topology 20)) ! 1 = Some ''sensor'' \<and>
   types (projr (generateSmallWorld example_dm rnd_zero example_topology 20)) ! 19 = Some ''processor'' \<and>
   (\<exists>d. types (projr (generateSmallWorld example_dm rnd_zero example_topology 20)) ! 18 =
        js_nth (type_names example_dm) (random_index (rnd_zero d) 4))"
proof -
  let ?g = "generateSmallWorld example_dm rnd_zero example_topology 20"
  have i: "\<not> isl ?g" by code_simp
  then have g: "?g = Inr (projr ?g)" by simp
  have a: "(1::nat) < nat 20" "(19::nat) < nat 20" "(18::nat) < nat 20" by simp_all
  from smallworld_types[OF g a(1)] have 1: "length (types (projr ?g)) = 20"
    "types (projr ?g) ! 1 = Some ''sensor''" by simp_all
  from smallworld_types[OF g a(2)] have 2: "types (projr ?g) ! 19 = Some ''processor''" by simp
  from smallworld_types[OF g a(3)]
  have 3: "\<exists>d. types (projr ?g) ! 18 = js_nth (type_names example_dm) (random_index (rnd_zero d) 4)"
    by simp
  from i a 1 2 3 show ?thesis by (intro conjI)
qed

text \<open>
  Claim C8 as stated forces the final \<open>ceil(cocoonCount * 0.1)\<close> nodes to \<open>processor\<close>. With
  10 nodes that is the one node 9, and \<open>9 > 10 * 0.9\<close> is false: node 9 gets a drawn type,
  which with every draw 0 is the first type name, \<open>sensor\<close>.
\<close>

theorem last_tenth_counterexample:
  "nat \<lceil>(10::real) * (1 / 10)\<rceil> = 1 \<and>
   \<not> isl (generateSmallWorld example_dm rnd_zero example_topology 10) \<and>
   types (projr (generateSmallWorld example_dm rnd_zero example_topology 10)) ! (10 - 1) \<noteq>
     Some ''processor''"
  by code_simp

subsection \<open>C9: self-loops\<close>

text \<open>
  No generator connects a node to itself, except the small-world generator when a node has
  at least as many clockwise neighbours as there are nodes (\<open>kNeighbors div 2 \<ge> cocoonCount\<close>).
\<close>

lemma no_self_loops_elsewhere:
  assumes "\<forall>k. 0 \<le> rnd k \<and> rnd k < 1"
  shows
   "(\<exists>r. generateFunnel c n = Inr r \<and> (\<forall>e\<in>set (connections r). from e \<noteq> Some (to e))) \<and>
    (\<exists>r. generateOnion dm rnd c n = Inr r \<and> (\<forall>e\<in>set (connections r). from e \<noteq> Some (to e))) \<and>
    (kNeighbors c div 2 < nat n \<longrightarrow>
      (\<forall>r. generateSmallWorld dm rnd c n = Inr r \<longrightarrow>
         (\<forall>e\<in>set (connections r). from e \<noteq> Some (to e)))) \<and>
    (\<exists>r. generateHourglass c n = Inr r \<and> (\<forall>e\<in>set (connections r). from e \<noteq> Some (to e))) \<and>
    (\<forall>e\<in>set (connections (generateSphereSurface distance rnd s m)). from e \<noteq> Some (to e)) \<and>
    (\<forall>e\<in>set (connections (generateRandomGraph rnd s m)). from e \<noteq> Some (to e))"
proof -
  note u = unit_drawsI[OF assms]
  have 1: "\<exists>r. generateFunnel c n = Inr r \<and> (\<forall>e\<in>set (connections r). from e \<noteq> Some (to e))"
    using funnel_links[of c n] conn_ok_no_loop by blast
  have 2: "\<exists>r. generateOnion dm rnd c n = Inr r \<and> (\<forall>e\<in>set (connections r). from e \<noteq> Some (to e))"
    using onion_links[OF u, of dm c n] conn_ok_no_loop by blast
  have 3: "kNeighbors c div 2 < nat n \<longrightarrow>
      (\<forall>r. generateSmallWorld dm rnd c n = Inr r \<longrightarrow>
         (\<forall>e\<in>set (connections r). from e \<noteq> Some (to e)))"
    using smallworld_no_loop by blast
  have 4: "\<exists>r. generateHourglass c n = Inr r \<and> (\<forall>e\<in>set (connections r). from e \<noteq> Some (to e))"
    using hourglass_links[of c n] conn_ok_no_loop by blast
  have 5: "\<forall>e\<in>set (connections (generateSphereSurface distance rnd s m)). from e \<noteq> Some (to e)"
    using generateSphereSurface_props[of distance rnd s m] pair_ok_no_loop by blast
  have 6: "\<forall>e\<in>set (connections (generateRandomGraph rnd s m)). from e \<noteq> Some (to e)"
    using generateRandomGraph_props[of rnd s m] pair_ok_no_loop by blast
  from 1 2 3 4 5 6 show ?thesis by (intro conjI)
qed

text \<open>
  Claim C9 says that no generator emits a connection with \<open>from = to\<close>, for every node count
  from 1 on. The rewiring branch of the small-world generator redraws a target equal to
  \<open>i\<close>, but the ring branch takes \<open>(i + j) % cocoonCount\<close> as it is, and that is \<open>i\<close> when
  \<open>cocoonCount\<close> divides \<open>j\<close>. With one node, four neighbours and no rewiring the generator
  returns two connections from node 0 to node 0.
\<close>

theorem smallworld_self_loop:
  "generateSmallWorld example_dm rnd_zero example_topology 1 =
     Inr \<lparr>positions = [\<lparr>layer = 0\<rparr>],
          connections = [\<lparr>from = Some 0, to = 0, weight = 7 / 10\<rparr>,
                         \<lparr>from = Some 0, to = 0, weight = 7 / 10\<rparr>],
          types = [Some ''sensor''], layers = Some 1\<rparr>"
  by code_simp

subsection \<open>C2: names without a config\<close>

text \<open>A name that is neither a key of \<open>topologies\<close> nor inherited from \<open>Object.prototype\<close>
  gives the empty network, as does \<open>doesnotexist\<close>.\<close>

lemma generateTopology_unknown:
  assumes "topologies dm name = None" "name \<notin> set object_prototype"
  shows "generateTopology dm rnd name n struct = Inr empty_network"
  using assms by (simp add: generateTopology_def getTopology_def get_or_null_def)

lemma generateTopology_doesnotexist:
  "generateTopology example_dm rnd ''doesnotexist'' 50 struct =
     Inr \<lparr>positions = [], connections = [], types = [], layers = None\<rparr>"
  unfolding empty_network_def[symmetric]
  by (rule generateTopology_unknown) (simp_all add: example_dm_def object_prototype_def)

text \<open>
  Claim C2 says that \<open>generateTopology\<close> returns the empty network for every name that has no
  config, instead of throwing. \<open>constructor\<close> has no config, but \<open>topologies["constructor"]\<close>
  is the inherited \<open>Object\<close> function, which passes the guard \<open>!topology\<close>; reading
  \<open>topology.generator.type\<close> then throws a \<open>TypeError\<close>, for every count and every third
  argument.
\<close>

theorem generateTopology_inherited_name:
  "generateTopology example_dm rnd ''constructor'' n struct = Inl TypeError"
  by (simp add: generateTopology_def getTopology_def get_or_null_def example_dm_def
      object_prototype_def)

end
